theory Spec2Isabelle
  imports Main
begin

section \<open>Frame decoder: \<open>htmlToFrame\<close> of src/index.tsx\<close>

subsection \<open>JavaScript helpers\<close>

text \<open>The nullish coalescing operator \<open>a ?? b\<close>: \<open>None\<close> stands for \<open>null\<close> and
  \<open>undefined\<close>, every other value (the empty string too) is kept.\<close>

definition nullish :: "'a option \<Rightarrow> 'a \<Rightarrow> 'a" where
  "nullish a b = (case a of None \<Rightarrow> b | Some v \<Rightarrow> v)"

text \<open>A JavaScript \<open>Map\<close> keeps its keys in the order of their first insertion;
  \<open>set\<close> on a key that is present replaces the value where it stands.\<close>

fun map_set :: "'k \<Rightarrow> 'v \<Rightarrow> ('k \<times> 'v) list \<Rightarrow> ('k \<times> 'v) list" where
  "map_set k v [] = [(k, v)]"
| "map_set k v ((k', v') # m) = (if k' = k then (k, v) # m else (k', v') # map_set k v m)"

definition map_get :: "('k \<times> 'v) list \<Rightarrow> 'k \<Rightarrow> 'v option" where
  "map_get m k = map_of m k"

text \<open>\<open>parseInt(s, 10)\<close> on a string of decimal digits (the decoder calls it on the
  first capture group of the button pattern only, which is one of 1, 2, 3, 4).\<close>

definition digit_val :: "char \<Rightarrow> nat" where
  "digit_val c = of_char c - 48"

definition parseInt10 :: "string \<Rightarrow> nat" where
  "parseInt10 s = foldl (\<lambda>n c. 10 * n + digit_val c) 0 s"

subsection \<open>The button pattern\<close>

text \<open>\<open>buttonRegex = /fc:frame:button:(1|2|3|4)(?::(action|target))?$/\<close>.
  \<open>match_here s\<close> matches the pattern at the start of \<open>s\<close>: the literal prefix, then
  \<open>match_groups\<close> for \<open>(1|2|3|4)(?::(action|target))?$\<close>. Because of the final \<open>$\<close>
  (no multiline flag) the match has to consume \<open>s\<close> to its end. The result is the pair of
  capture groups.\<close>

fun strip_prefix :: "string \<Rightarrow> string \<Rightarrow> string option" where
  "strip_prefix [] s = Some s"
| "strip_prefix (p # ps) [] = None"
| "strip_prefix (p # ps) (c # cs) = (if p = c then strip_prefix ps cs else None)"

definition match_groups :: "string \<Rightarrow> (string \<times> string option) option" where
  "match_groups r =
     (case r of
        [] \<Rightarrow> None
      | d # rest \<Rightarrow>
          if d \<in> set ''1234'' then
            (if rest = '':action'' then Some ([d], Some ''action'')
             else if rest = '':target'' then Some ([d], Some ''target'')
             else if rest = [] then Some ([d], None)
             else None)
          else None)"

definition match_here :: "string \<Rightarrow> (string \<times> string option) option" where
  "match_here s =
     (case strip_prefix ''fc:frame:button:'' s of
        None \<Rightarrow> None
      | Some r \<Rightarrow> match_groups r)"

text \<open>The pattern has no anchor at its start: \<open>test\<close> and \<open>match\<close> try every start
  position from the left and return the first match.\<close>

fun buttonRegex_exec :: "string \<Rightarrow> (string \<times> string option) option" where
  "buttonRegex_exec [] = match_here []"
| "buttonRegex_exec (c # cs) =
     (case match_here (c # cs) of
        Some m \<Rightarrow> Some m
      | None \<Rightarrow> buttonRegex_exec cs)"

subsection \<open>Data\<close>

text \<open>A \<open>meta\<close> element as the decoder reads it: \<open>getAttribute\<close> gives \<open>null\<close>
  (here \<open>None\<close>) for an attribute that is absent.\<close>

record metaTag =
  property_attr :: "string option"
  content_attr :: "string option"
  outerHTML :: string

text \<open>\<open>const title = content ?? index\<close> is a string or a number.\<close>

datatype title = TStr string | TNum nat

record buttonEntry =
  index :: nat
  title :: title

record frameButton = buttonEntry +
  type :: string

definition validPropertyNames :: "string set" where
  "validPropertyNames =
     {''fc:frame'', ''fc:frame:image'', ''fc:frame:input:text'', ''fc:frame:post_url'',
      ''og:image'', ''og:title''}"

text \<open>The variables the scanning loop updates.\<close>

record scan =
  currentButtonIndex :: nat
  buttonsAreMissing :: bool
  buttonsAreOutOfOrder :: bool
  buttonMap :: "(nat \<times> buttonEntry) list"
  buttonActionMap :: "(nat \<times> string) list"
  invalidButtons :: "nat list"
  properties :: "string \<rightharpoonup> string"

definition scan_init :: scan where
  "scan_init =
     \<lparr> currentButtonIndex = 0, buttonsAreMissing = False, buttonsAreOutOfOrder = False,
       buttonMap = [], buttonActionMap = [], invalidButtons = [], properties = Map.empty \<rparr>"

subsection \<open>The scanning loop\<close>

text \<open>One iteration of \<open>for (const metaTag of metaTags)\<close>. \<open>!property\<close> holds for an
  absent attribute and for the empty string. The two tests on \<open>currentButtonIndex\<close> are
  made in the order of the source: the first reads the value before the second advances
  it.\<close>

definition scan_tag :: "scan \<Rightarrow> metaTag \<Rightarrow> scan" where
  "scan_tag st metaTag =
     (case property_attr metaTag of
        None \<Rightarrow> st
      | Some property \<Rightarrow>
          if property = [] then st
          else
            let content = nullish (content_attr metaTag) [] in
            if property \<in> validPropertyNames
            then st\<lparr>properties := (properties st)(property \<mapsto> content)\<rparr>
            else
              (case buttonRegex_exec property of
                 None \<Rightarrow> st
               | Some (g1, g2) \<Rightarrow>
                   let index = parseInt10 g1 in
                   (case g2 of
                      Some _ \<Rightarrow>
                        st\<lparr>buttonActionMap := map_set index content (buttonActionMap st)\<rparr>
                    | None \<Rightarrow>
                        let outOfOrder =
                              (if currentButtonIndex st \<ge> index then True
                               else scan.buttonsAreOutOfOrder st);
                            advance = (currentButtonIndex st + 1 = index);
                            current = (if advance then index else currentButtonIndex st);
                            missing = (if advance then buttonsAreMissing st else True);
                            invalid =
                              (if outOfOrder \<or> missing then scan.invalidButtons st @ [index]
                               else scan.invalidButtons st);
                            title = nullish (Some (TStr content)) (TNum index)
                        in st\<lparr>currentButtonIndex := current,
                              buttonsAreMissing := missing,
                              scan.buttonsAreOutOfOrder := outOfOrder,
                              buttonMap :=
                                map_set index \<lparr>index = index, title = title\<rparr> (buttonMap st),
                              scan.invalidButtons := invalid\<rparr>)))"

definition scan_tags :: "metaTag list \<Rightarrow> scan" where
  "scan_tags metaTags = foldl scan_tag scan_init metaTags"

subsection \<open>The result\<close>

record textInput =
  text' :: string

record frame =
  buttons :: "frameButton list"
  imageUrl :: string
  input :: "textInput option"
  postUrl :: string
  version :: string

record debug = frame +
  buttonsAreOutOfOrder :: bool
  fallbackImageToUrl :: bool
  htmlTags :: "string list"
  image :: string
  inputTextTooLong :: bool
  invalidButtons :: "nat list"
  postUrlTooLong :: bool
  valid :: bool

record decoded = frame +
  debug :: debug
  title :: string

text \<open>The loop over \<open>buttonMap\<close> (in insertion order) followed by
  \<open>toSorted((a, b) => a.index - b.index)\<close>, a stable sort.\<close>

definition make_buttons :: "scan \<Rightarrow> frameButton list" where
  "make_buttons st =
     sort_key index
       (map (\<lambda>(key, button).
               \<lparr>index = index button, title = buttonEntry.title button,
                 type = nullish (map_get (buttonActionMap st) key) ''post''\<rparr>)
            (buttonMap st))"

text \<open>\<open>htmlToFrame\<close> after the document has been parsed: the argument is the result of
  \<open>document.querySelectorAll('meta')\<close>, the \<open>meta\<close> elements in document order.\<close>

definition htmlToFrame :: "metaTag list \<Rightarrow> decoded" where
  "htmlToFrame metaTags =
     (let st = scan_tags metaTags;
          image = nullish (properties st ''og:image'') [];
          imageUrl = nullish (properties st ''fc:frame:image'') [];
          postUrl = nullish (properties st ''fc:frame:post_url'') [];
          title = nullish (properties st ''og:title'') [];
          version = nullish (properties st ''fc:frame'') ''vNext'';
          buttons = make_buttons st;
          input =
            (case properties st ''fc:frame:input:text'' of
               None \<Rightarrow> None
             | Some t \<Rightarrow> if t = [] then None else Some \<lparr>text' = t\<rparr>);
          fallbackImageToUrl = (imageUrl = []);
          postUrlTooLong = (length postUrl > 2048);
          inputTextTooLong = False;
          valid = True
      in \<lparr>buttons = buttons, imageUrl = imageUrl, input = input, postUrl = postUrl,
          version = version,
          debug =
            \<lparr>buttons = buttons, imageUrl = imageUrl, input = input, postUrl = postUrl,
              version = version,
              buttonsAreOutOfOrder = (buttonsAreMissing st \<or> scan.buttonsAreOutOfOrder st),
              fallbackImageToUrl = fallbackImageToUrl,
              htmlTags = map outerHTML metaTags,
              image = image,
              inputTextTooLong = inputTextTooLong,
              invalidButtons = scan.invalidButtons st,
              postUrlTooLong = postUrlTooLong,
              valid = valid\<rparr>,
          title = title\<rparr>)"

section \<open>Intent encoder: \<open>parseIntents\<close>, \<open>parseIntent\<close> and the components\<close>

subsection \<open>JSX values\<close>

text \<open>A function used as a JSX tag: the components \<open>Button\<close> and \<open>TextInput\<close> of
  src/index.tsx, the component \<open>Spacer\<close> of src/unnamed/part_000 (it has no \<open>__type\<close>), the
  placeholder \<open>{ tag() {} }\<close> that \<open>parseIntent\<close> substitutes for a falsy node, and any
  other function, given by its name and its \<open>__type\<close> property (\<open>None\<close> when it has
  none).\<close>

datatype fn = Button | TextInput | Spacer | Placeholder | Custom string "string option"

fun fn_type :: "fn \<Rightarrow> string option" where
  "fn_type Button = Some ''button''"
| "fn_type TextInput = Some ''text-input''"
| "fn_type Spacer = None"
| "fn_type Placeholder = None"
| "fn_type (Custom name t) = t"

text \<open>A tag is the name of an intrinsic element (\<open>typeof tag === 'string'\<close>) or a
  function. A \<open>JSXNode\<close> has a tag, properties and children; properties are kept in
  insertion order, as a JavaScript object keeps them.\<close>

datatype tag = Elem string | Comp fn

datatype jsxNode = JSXNode (tag: tag) (props: "(string \<times> jsvalue) list") (children: "jsvalue list")
  and jsvalue =
    VUndefined | VNull | VBool bool | VNum nat | VStr string | VNode jsxNode
  | VArray "jsvalue list"

type_synonym jsprops = "(string \<times> jsvalue) list"

datatype error = TypeError | URIError | SyntaxError

definition truthy :: "jsvalue \<Rightarrow> bool" where
  "truthy v =
     (case v of
        VUndefined \<Rightarrow> False
      | VNull \<Rightarrow> False
      | VBool b \<Rightarrow> b
      | VNum n \<Rightarrow> n \<noteq> 0
      | VStr s \<Rightarrow> s \<noteq> []
      | VNode _ \<Rightarrow> True
      | VArray _ \<Rightarrow> True)"

text \<open>\<open>typeof v === 'object'\<close>: objects, arrays and \<open>null\<close>.\<close>

definition typeof_object :: "jsvalue \<Rightarrow> bool" where
  "typeof_object v =
     (case v of VNull \<Rightarrow> True | VNode _ \<Rightarrow> True | VArray _ \<Rightarrow> True | _ \<Rightarrow> False)"

text \<open>Reading a property of an object: \<open>undefined\<close> when it is absent.\<close>

definition obj_get :: "jsprops \<Rightarrow> string \<Rightarrow> jsvalue" where
  "obj_get ps k = nullish (map_of ps k) VUndefined"

subsection \<open>Decimal numerals\<close>

text \<open>The template literal \<open>`fc:frame:button:${index}`\<close> converts the number \<open>index\<close> to
  its decimal numeral.\<close>

function show_nat :: "nat \<Rightarrow> string" where
  "show_nat n =
     (if n < 10 then [char_of (48 + n)]
      else show_nat (n div 10) @ [char_of (48 + n mod 10)])"
  by pat_completeness auto
termination
  by (relation "measure id") auto

declare show_nat.simps [simp del]

subsection \<open>Components\<close>

text \<open>\<open>Button({ children, index = 0, value })\<close>: the default applies when \<open>index\<close> is
  \<open>undefined\<close>. The declared type of \<open>index\<close> is \<open>number | undefined\<close>; the model takes the
  default for every value that is not a number.\<close>

definition Button_fn :: "jsprops \<Rightarrow> jsvalue" where
  "Button_fn ps =
     (let children = obj_get ps ''children'';
          index = (case obj_get ps ''index'' of VNum n \<Rightarrow> n | _ \<Rightarrow> 0);
          val = obj_get ps ''value''
      in VNode (JSXNode (Elem ''meta'')
           [(''property'', VStr (''fc:frame:button:'' @ show_nat index)),
            (''content'', children),
            (''data-value'', val)] []))"

definition TextInput_fn :: "jsprops \<Rightarrow> jsvalue" where
  "TextInput_fn ps =
     VNode (JSXNode (Elem ''meta'')
       [(''property'', VStr ''fc:frame:input:text''),
        (''content'', obj_get ps ''placeholder'')] [])"

text \<open>\<open>Spacer({ __context, size })\<close> returns the element
  \<open><Box __context={__context} grow={size ? undefined : true} height={size} width={size} />\<close>.
  \<open>Box\<close> is imported from a file that is not part of the source; the element only names it
  as its tag.\<close>

definition Spacer_fn :: "jsprops \<Rightarrow> jsvalue" where
  "Spacer_fn ps =
     (let context = obj_get ps ''__context'';
          size = obj_get ps ''size''
      in VNode (JSXNode (Comp (Custom ''Box'' None))
           [(''__context'', context),
            (''grow'', if truthy size then VUndefined else VBool True),
            (''height'', size),
            (''width'', size)] []))"

text \<open>Calling a tag function with a properties object. The functions that are not defined
  in the source are given by \<open>env\<close>, from the name of the function and the properties to the
  value it returns.\<close>

fun call :: "(string \<Rightarrow> jsprops \<Rightarrow> jsvalue) \<Rightarrow> fn \<Rightarrow> jsprops \<Rightarrow> jsvalue" where
  "call env Button ps = Button_fn ps"
| "call env TextInput ps = TextInput_fn ps"
| "call env Spacer ps = Spacer_fn ps"
| "call env Placeholder ps = VUndefined"
| "call env (Custom name t) ps = env name ps"

subsection \<open>The traversal\<close>

text \<open>\<open>parseIntent(node_, counter)\<close>, with \<open>node0\<close> for the argument \<open>node_\<close>. The counter
  object is passed in and returned.
  A truthy value that is not a node (a string, a number, \<open>true\<close>, an array) has no \<open>tag\<close>:
  reading \<open>__type\<close> of \<open>undefined\<close> throws a TypeError. An intrinsic tag is a string and has
  no \<open>__type\<close>; the node is then returned as it is.\<close>

definition parseIntent ::
    "(string \<Rightarrow> jsprops \<Rightarrow> jsvalue) \<Rightarrow> jsvalue \<Rightarrow> nat \<Rightarrow> error + (jsvalue \<times> nat)" where
  "parseIntent env node0 counter =
     (case (if \<not> truthy node0 then VNode (JSXNode (Comp Placeholder) [] []) else node0) of
        VNode node \<Rightarrow>
          (case tag node of
             Elem s \<Rightarrow> Inr (VNode node, counter)
           | Comp f \<Rightarrow>
               if fn_type f = Some ''button'' then
                 Inr (call env f
                        (map_set ''index'' (VNum counter)
                          (map_set ''children'' (VArray (children node)) (props node))),
                      counter + 1)
               else if fn_type f = Some ''text-input'' then
                 Inr (call env f (map_set ''children'' (VArray (children node)) (props node)),
                      counter)
               else Inr (call env f [], counter))
      | _ \<Rightarrow> Inl TypeError)"

text \<open>\<open>xs.map((e) => parseIntent(e, counter))\<close>: the elements in order, the counter
  threaded through; an exception ends the loop.\<close>

fun parseIntent_map ::
    "(string \<Rightarrow> jsprops \<Rightarrow> jsvalue) \<Rightarrow> jsvalue list \<Rightarrow> nat \<Rightarrow> error + (jsvalue list \<times> nat)" where
  "parseIntent_map env [] counter = Inr ([], counter)"
| "parseIntent_map env (e # es) counter =
     (case parseIntent env e counter of
        Inl err \<Rightarrow> Inl err
      | Inr (r, counter') \<Rightarrow>
          (case parseIntent_map env es counter' of
             Inl err \<Rightarrow> Inl err
           | Inr (rs, counter'') \<Rightarrow> Inr (r # rs, counter'')))"

text \<open>\<open>parseIntents(intents_)\<close>, with \<open>intents0\<close> for the argument \<open>intents_\<close>. A value that is neither an array nor a node has no
  \<open>children\<close> array, and \<open>intents.children[0]\<close> throws a TypeError (the caller only passes
  truthy values).\<close>

definition parseIntents ::
    "(string \<Rightarrow> jsprops \<Rightarrow> jsvalue) \<Rightarrow> jsvalue \<Rightarrow> error + jsvalue" where
  "parseIntents env intents0 =
     (let counter = 1 in
      case intents0 of
        VArray intents \<Rightarrow>
          (case parseIntent_map env intents counter of
             Inl err \<Rightarrow> Inl err
           | Inr (rs, _) \<Rightarrow> Inr (VArray rs))
      | VNode intents \<Rightarrow>
          if (case children intents of [] \<Rightarrow> False | c # _ \<Rightarrow> typeof_object c) then
            (case parseIntent_map env (children intents) counter of
               Inl err \<Rightarrow> Inl err
             | Inr (rs, _) \<Rightarrow> Inr (VNode (JSXNode (tag intents) (props intents) rs)))
          else
            (case parseIntent env (VNode intents) counter of
               Inl err \<Rightarrow> Inl err
             | Inr (r, _) \<Rightarrow> Inr r)
      | _ \<Rightarrow> Inl TypeError)"

subsection \<open>From the encoder's output to the decoder's input\<close>

text \<open>The encoder's elements reach the decoder through the JSX renderer and the HTML
  parser, which are libraries outside the source. An attribute whose value is \<open>undefined\<close>
  or \<open>null\<close> is not rendered; a string comes back as it is (escaping and parsing cancel);
  for every other value the attribute is the text \<open>render\<close> gives it, a parameter.
  \<open>metaTags_of\<close> lists the \<open>meta\<close> elements among the values the encoder returns, in
  order.\<close>

definition attr_string :: "(jsvalue \<Rightarrow> string) \<Rightarrow> jsvalue \<Rightarrow> string option" where
  "attr_string render v =
     (case v of
        VUndefined \<Rightarrow> None
      | VNull \<Rightarrow> None
      | VStr s \<Rightarrow> Some s
      | _ \<Rightarrow> Some (render v))"

definition to_metaTag :: "(jsvalue \<Rightarrow> string) \<Rightarrow> jsxNode \<Rightarrow> metaTag" where
  "to_metaTag render n =
     \<lparr>property_attr = attr_string render (obj_get (props n) ''property''),
      content_attr = attr_string render (obj_get (props n) ''content''),
      outerHTML = render (VNode n)\<rparr>"

definition metaTags_of :: "(jsvalue \<Rightarrow> string) \<Rightarrow> jsvalue list \<Rightarrow> metaTag list" where
  "metaTags_of render vs =
     concat (map (\<lambda>v. case v of
                         VNode n \<Rightarrow> if tag n = Elem ''meta'' then [to_metaTag render n] else []
                       | _ \<Rightarrow> []) vs)"

section \<open>Context token: \<open>deserializeJson\<close>\<close>

text \<open>\<open>deserializeJson\<close> applies two built-in functions of the language,
  \<open>decodeURIComponent\<close> and \<open>JSON.parse\<close>. They are modelled here after the language
  standard (ECMA-262, \<open>Decode\<close> and the JSON grammar); their exceptions are results.
  A string is the list of its UTF-16 code units, since \<open>decodeURIComponent\<close> produces code
  units above 255.\<close>

subsection \<open>Strings of code units\<close>

type_synonym jsstring = "nat list"

definition ustring :: "string \<Rightarrow> jsstring" where
  "ustring s = map of_char s"

abbreviation cu :: "char \<Rightarrow> nat" where
  "cu c \<equiv> of_char c"

definition is_digit :: "nat \<Rightarrow> bool" where
  "is_digit c = (cu CHR ''0'' \<le> c \<and> c \<le> cu CHR ''9'')"

subsection \<open>\<open>decodeURIComponent\<close>\<close>

text \<open>The value of a hexadecimal digit, and of the two digits that follow a \<open>%\<close>.\<close>

definition hexval :: "nat \<Rightarrow> nat option" where
  "hexval c =
     (if cu CHR ''0'' \<le> c \<and> c \<le> cu CHR ''9'' then Some (c - cu CHR ''0'')
      else if cu CHR ''A'' \<le> c \<and> c \<le> cu CHR ''F'' then Some (c - cu CHR ''A'' + 10)
      else if cu CHR ''a'' \<le> c \<and> c \<le> cu CHR ''f'' then Some (c - cu CHR ''a'' + 10)
      else None)"

definition ParseHexOctet :: "jsstring \<Rightarrow> nat option" where
  "ParseHexOctet cs =
     (case cs of
        h1 # h2 # _ \<Rightarrow>
          (case (hexval h1, hexval h2) of
             (Some a, Some b) \<Rightarrow> Some (16 * a + b)
           | _ \<Rightarrow> None)
      | _ \<Rightarrow> None)"

text \<open>The number of leading 1 bits of an octet (5 stands for "more than 4").\<close>

definition leading_ones :: "nat \<Rightarrow> nat" where
  "leading_ones B =
     (if B < 128 then 0 else if B < 192 then 1 else if B < 224 then 2
      else if B < 240 then 3 else if B < 248 then 4 else 5)"

text \<open>The \<open>n - 1\<close> escapes \<open>%XX\<close> that continue a multi-octet sequence.\<close>

fun continuation :: "nat \<Rightarrow> jsstring \<Rightarrow> nat list option" where
  "continuation 0 cs = Some []"
| "continuation (Suc j) [] = None"
| "continuation (Suc j) (c # cs) =
     (if c \<noteq> cu CHR ''%'' then None
      else case ParseHexOctet cs of
             None \<Rightarrow> None
           | Some b \<Rightarrow> map_option ((#) b) (continuation j (drop 2 cs)))"

text \<open>The code point of a well-formed UTF-8 sequence of two, three or four octets:
  continuation octets in \<open>0x80..0xBF\<close>, no overlong form, no surrogate, at most
  \<open>0x10FFFF\<close>. \<open>utf16\<close> gives the code units of a code point.\<close>

definition is_cont :: "nat \<Rightarrow> bool" where
  "is_cont b = (128 \<le> b \<and> b < 192)"

definition utf8_code_point :: "nat list \<Rightarrow> nat option" where
  "utf8_code_point octets =
     (case octets of
        [b0, b1] \<Rightarrow>
          let v = (b0 - 192) * 64 + (b1 - 128)
          in if is_cont b1 \<and> 128 \<le> v then Some v else None
      | [b0, b1, b2] \<Rightarrow>
          let v = (b0 - 224) * 4096 + (b1 - 128) * 64 + (b2 - 128)
          in if is_cont b1 \<and> is_cont b2 \<and> 2048 \<le> v \<and> \<not> (55296 \<le> v \<and> v \<le> 57343)
             then Some v else None
      | [b0, b1, b2, b3] \<Rightarrow>
          let v = (b0 - 240) * 262144 + (b1 - 128) * 4096 + (b2 - 128) * 64 + (b3 - 128)
          in if is_cont b1 \<and> is_cont b2 \<and> is_cont b3 \<and> 65536 \<le> v \<and> v \<le> 1114111
             then Some v else None
      | _ \<Rightarrow> None)"

definition utf16 :: "nat \<Rightarrow> jsstring" where
  "utf16 v =
     (if v < 65536 then [v]
      else [55296 + (v - 65536) div 1024, 56320 + (v - 65536) mod 1024])"

text \<open>\<open>Decode\<close> with an empty set of preserved characters: a code unit other than \<open>%\<close>
  is copied; \<open>%\<close> must be followed by two hexadecimal digits, and an octet with a
  leading 1 bit starts a UTF-8 sequence. Every failure is a URIError.\<close>

fun decodeURIComponent :: "jsstring \<Rightarrow> error + jsstring" where
  "decodeURIComponent [] = Inr []"
| "decodeURIComponent (c # cs) =
     (if c \<noteq> cu CHR ''%'' then map_sum id ((#) c) (decodeURIComponent cs)
      else
        case ParseHexOctet cs of
          None \<Rightarrow> Inl URIError
        | Some B \<Rightarrow>
            let n = leading_ones B in
            if n = 0 then map_sum id ((#) B) (decodeURIComponent (drop 2 cs))
            else if n = 1 \<or> n > 4 then Inl URIError
            else
              (case continuation (n - 1) (drop 2 cs) of
                 None \<Rightarrow> Inl URIError
               | Some octets \<Rightarrow>
                   (case utf8_code_point (B # octets) of
                      None \<Rightarrow> Inl URIError
                    | Some v \<Rightarrow>
                        map_sum id ((@) (utf16 v))
                          (decodeURIComponent (drop (2 + 3 * (n - 1)) cs)))))"

subsection \<open>\<open>JSON.parse\<close>\<close>

text \<open>A JSON value. A number is kept as its numeral (its conversion to a double is not
  modelled); an object lists its members in the order of first insertion, a repeated key
  replacing the earlier value.\<close>

datatype json =
    JNull | JBool bool | JNumber jsstring | JString jsstring | JArray "json list"
  | JObject "(jsstring \<times> json) list"

datatype token =
    TkLBrace | TkRBrace | TkLBracket | TkRBracket | TkColon | TkComma
  | TkString jsstring | TkNumber jsstring | TkTrue | TkFalse | TkNull

text \<open>Tokens: white space separates them; a string ends at the closing quote, with the
  escapes of the grammar, and may not hold a raw control character; a number is the
  longest run of number characters and has to follow the grammar
  \<open>-? (0 | [1-9][0-9]*) (. [0-9]+)? ([eE] [+-]? [0-9]+)?\<close>.\<close>

definition is_ws :: "nat \<Rightarrow> bool" where
  "is_ws c = (c = 32 \<or> c = 9 \<or> c = 10 \<or> c = 13)"

definition unescape :: "nat \<Rightarrow> nat option" where
  "unescape e =
     (if e = cu CHR ''\"'' then Some 34
      else if e = cu CHR 0x5C then Some 92
      else if e = cu CHR ''/'' then Some 47
      else if e = cu CHR ''b'' then Some 8
      else if e = cu CHR ''f'' then Some 12
      else if e = cu CHR ''n'' then Some 10
      else if e = cu CHR ''r'' then Some 13
      else if e = cu CHR ''t'' then Some 9
      else None)"

definition hex4 :: "jsstring \<Rightarrow> nat option" where
  "hex4 hs =
     (case map hexval hs of
        [Some a, Some b, Some c, Some d] \<Rightarrow> Some (4096 * a + 256 * b + 16 * c + d)
      | _ \<Rightarrow> None)"

definition is_numchar :: "nat \<Rightarrow> bool" where
  "is_numchar c =
     (is_digit c \<or> c = cu CHR ''-'' \<or> c = cu CHR ''+'' \<or> c = cu CHR ''.'' \<or>
      c = cu CHR ''e'' \<or> c = cu CHR ''E'')"

definition digits1 :: "jsstring \<Rightarrow> jsstring option" where
  "digits1 s =
     (case s of
        [] \<Rightarrow> None
      | d # _ \<Rightarrow> if is_digit d then Some (dropWhile is_digit s) else None)"

definition int_part :: "jsstring \<Rightarrow> jsstring option" where
  "int_part s =
     (case s of
        [] \<Rightarrow> None
      | d # t \<Rightarrow> if d = cu CHR ''0'' then Some t else digits1 s)"

definition frac_part :: "jsstring \<Rightarrow> jsstring option" where
  "frac_part s =
     (case s of
        [] \<Rightarrow> Some s
      | d # t \<Rightarrow> if d = cu CHR ''.'' then digits1 t else Some s)"

definition exp_part :: "jsstring \<Rightarrow> jsstring option" where
  "exp_part s =
     (case s of
        [] \<Rightarrow> Some s
      | e # t \<Rightarrow>
          if e = cu CHR ''e'' \<or> e = cu CHR ''E'' then
            (case t of
               [] \<Rightarrow> None
             | g # u \<Rightarrow> if g = cu CHR ''+'' \<or> g = cu CHR ''-'' then digits1 u else digits1 t)
          else Some s)"

definition valid_number :: "jsstring \<Rightarrow> bool" where
  "valid_number s =
     (case int_part (case s of [] \<Rightarrow> [] | m # t \<Rightarrow> if m = cu CHR ''-'' then t else s) of
        None \<Rightarrow> False
      | Some r1 \<Rightarrow>
          (case frac_part r1 of
             None \<Rightarrow> False
           | Some r2 \<Rightarrow> (case exp_part r2 of None \<Rightarrow> False | Some r3 \<Rightarrow> r3 = [])))"

definition structural :: "nat \<Rightarrow> token option" where
  "structural c =
     (if c = cu CHR ''{'' then Some TkLBrace
      else if c = cu CHR ''}'' then Some TkRBrace
      else if c = cu CHR ''['' then Some TkLBracket
      else if c = cu CHR '']'' then Some TkRBracket
      else if c = cu CHR '':'' then Some TkColon
      else if c = cu CHR '','' then Some TkComma
      else None)"

function lex :: "jsstring \<Rightarrow> token list option"
  and lex_string :: "jsstring \<Rightarrow> jsstring \<Rightarrow> token list option" where
  "lex [] = Some []"
| "lex (c # cs) =
     (if is_ws c then lex cs
      else case structural c of
        Some t \<Rightarrow> map_option ((#) t) (lex cs)
      | None \<Rightarrow>
          if c = cu CHR ''\"'' then lex_string [] cs
          else if take 4 (c # cs) = ustring ''true'' then map_option ((#) TkTrue) (lex (drop 3 cs))
          else if take 5 (c # cs) = ustring ''false'' then map_option ((#) TkFalse) (lex (drop 4 cs))
          else if take 4 (c # cs) = ustring ''null'' then map_option ((#) TkNull) (lex (drop 3 cs))
          else if is_numchar c then
            (if valid_number (c # takeWhile is_numchar cs)
             then map_option ((#) (TkNumber (c # takeWhile is_numchar cs)))
                    (lex (dropWhile is_numchar cs))
             else None)
          else None)"
| "lex_string acc [] = None"
| "lex_string acc (c # cs) =
     (if c = cu CHR ''\"'' then map_option ((#) (TkString (rev acc))) (lex cs)
      else if c = cu CHR 0x5C then
        (case cs of
           [] \<Rightarrow> None
         | e # cs' \<Rightarrow>
             if e = cu CHR ''u'' then
               (case hex4 (take 4 cs') of
                  None \<Rightarrow> None
                | Some u \<Rightarrow> lex_string (u # acc) (drop 4 cs'))
             else
               (case unescape e of
                  None \<Rightarrow> None
                | Some u \<Rightarrow> lex_string (u # acc) cs'))
      else if c < 32 then None
      else lex_string (c # acc) cs)"
  by pat_completeness auto
termination
  by (relation "measure (\<lambda>x. case x of Inl s \<Rightarrow> length s | Inr (_, s) \<Rightarrow> length s)")
     (auto intro: le_imp_less_Suc length_dropWhile_le)

text \<open>The grammar of values, arrays and objects over the tokens. Each function returns
  the value and the tokens that remain. The test \<open>length rest < length ts\<close> only serves the
  termination proof: it always holds (lemma \<open>parse_shorter\<close> below).\<close>

definition starts_with :: "token \<Rightarrow> token list \<Rightarrow> bool" where
  "starts_with t ts = (case ts of [] \<Rightarrow> False | t' # _ \<Rightarrow> t' = t)"

function parse_value :: "token list \<Rightarrow> (json \<times> token list) option"
  and parse_elements :: "json list \<Rightarrow> token list \<Rightarrow> (json \<times> token list) option"
  and parse_members :: "(jsstring \<times> json) list \<Rightarrow> token list \<Rightarrow> (json \<times> token list) option"
  where
  "parse_value ts =
     (case ts of
        [] \<Rightarrow> None
      | t # rest \<Rightarrow>
          (case t of
             TkNull \<Rightarrow> Some (JNull, rest)
           | TkTrue \<Rightarrow> Some (JBool True, rest)
           | TkFalse \<Rightarrow> Some (JBool False, rest)
           | TkString s \<Rightarrow> Some (JString s, rest)
           | TkNumber n \<Rightarrow> Some (JNumber n, rest)
           | TkLBracket \<Rightarrow>
               if starts_with TkRBracket rest then Some (JArray [], tl rest)
               else parse_elements [] rest
           | TkLBrace \<Rightarrow>
               if starts_with TkRBrace rest then Some (JObject [], tl rest)
               else parse_members [] rest
           | _ \<Rightarrow> None))"
| "parse_elements acc ts =
     (case parse_value ts of
        None \<Rightarrow> None
      | Some (v, rest) \<Rightarrow>
          if length rest < length ts then
            (if starts_with TkComma rest then parse_elements (acc @ [v]) (tl rest)
             else if starts_with TkRBracket rest then Some (JArray (acc @ [v]), tl rest)
             else None)
          else None)"
| "parse_members acc ts =
     (case ts of
        [] \<Rightarrow> None
      | t # ts1 \<Rightarrow>
          (case t of
             TkString k \<Rightarrow>
               if starts_with TkColon ts1 then
                 (case parse_value (tl ts1) of
                    None \<Rightarrow> None
                  | Some (v, rest) \<Rightarrow>
                      if length rest < length (tl ts1) then
                        (if starts_with TkComma rest
                         then parse_members (map_set k v acc) (tl rest)
                         else if starts_with TkRBrace rest
                         then Some (JObject (map_set k v acc), tl rest)
                         else None)
                      else None)
               else None
           | _ \<Rightarrow> None))"
  by pat_completeness auto
termination
  by (relation "measure (\<lambda>x. case x of
                   Inl ts \<Rightarrow> 2 * length ts
                 | Inr (Inl (_, ts)) \<Rightarrow> 2 * length ts + 1
                 | Inr (Inr (_, ts)) \<Rightarrow> 2 * length ts + 1)")
     (auto simp: starts_with_def split: list.splits)

declare parse_value.simps [simp del] parse_elements.simps [simp del]
  parse_members.simps [simp del]

text \<open>\<open>JSON.parse(text)\<close>: the whole text has to be one value; otherwise a SyntaxError.\<close>

definition JSON_parse :: "jsstring \<Rightarrow> error + json" where
  "JSON_parse text =
     (case lex text of
        None \<Rightarrow> Inl SyntaxError
      | Some ts \<Rightarrow>
          (case parse_value ts of
             Some (v, []) \<Rightarrow> Inr v
           | _ \<Rightarrow> Inl SyntaxError))"

subsection \<open>\<open>deserializeJson\<close>\<close>

text \<open>\<open>function deserializeJson(data = '{}') { return JSON.parse(decodeURIComponent(data)) }\<close>.
  The argument is \<open>None\<close> when the query parameter is absent (\<open>undefined\<close>), and the
  default applies. There is no \<open>try\<close>: an exception of either built-in function is the
  result.\<close>

definition deserializeJson :: "jsstring option \<Rightarrow> error + json" where
  "deserializeJson data =
     (case decodeURIComponent (nullish data (ustring ''{}'')) of
        Inl e \<Rightarrow> Inl e
      | Inr s \<Rightarrow> JSON_parse s)"

section \<open>Notions used to state the properties\<close>

subsection \<open>Decoder\<close>

text \<open>\<open>plain_index t\<close> is the index of \<open>t\<close> when the loop treats \<open>t\<close> as a plain button tag
  (the pattern matches without \<open>:action\<close> or \<open>:target\<close>); \<open>action_index t\<close> is the index when
  the loop treats it as an action or target tag. Both repeat the tests of \<open>scan_tag\<close>.\<close>

definition plain_index :: "metaTag \<Rightarrow> nat option" where
  "plain_index t =
     (case property_attr t of
        None \<Rightarrow> None
      | Some p \<Rightarrow>
          if p = [] \<or> p \<in> validPropertyNames then None
          else (case buttonRegex_exec p of
                  Some (g1, None) \<Rightarrow> Some (parseInt10 g1)
                | _ \<Rightarrow> None))"

definition action_index :: "metaTag \<Rightarrow> nat option" where
  "action_index t =
     (case property_attr t of
        None \<Rightarrow> None
      | Some p \<Rightarrow>
          if p = [] \<or> p \<in> validPropertyNames then None
          else (case buttonRegex_exec p of
                  Some (g1, Some g2) \<Rightarrow> Some (parseInt10 g1)
                | _ \<Rightarrow> None))"

text \<open>The indices of the plain button tags of a document, in document order.\<close>

definition plain_button_indices :: "metaTag list \<Rightarrow> nat list" where
  "plain_button_indices metaTags = List.map_filter plain_index metaTags"

text \<open>The content the loop reads from a tag, and the content of the last tag of a
  document that satisfies \<open>P\<close>.\<close>

definition content_of :: "metaTag \<Rightarrow> string" where
  "content_of t = nullish (content_attr t) []"

definition last_content :: "(metaTag \<Rightarrow> bool) \<Rightarrow> metaTag list \<Rightarrow> string option" where
  "last_content P ts =
     (case rev (filter P ts) of [] \<Rightarrow> None | t # _ \<Rightarrow> Some (content_of t))"

text \<open>The four variables of the ordering check, and the effect of one plain button tag
  with index \<open>i\<close> on them.\<close>

type_synonym order_state = "nat \<times> bool \<times> bool \<times> nat list"

definition order_of :: "scan \<Rightarrow> order_state" where
  "order_of st =
     (currentButtonIndex st, buttonsAreMissing st, scan.buttonsAreOutOfOrder st,
      scan.invalidButtons st)"

fun order_step :: "order_state \<Rightarrow> nat \<Rightarrow> order_state" where
  "order_step (cur, missing, outOfOrder, invalid) i =
     (let outOfOrder' = (cur \<ge> i \<or> outOfOrder);
          missing' = (cur + 1 \<noteq> i \<or> missing)
      in (if cur + 1 = i then i else cur, missing', outOfOrder',
          if outOfOrder' \<or> missing' then invalid @ [i] else invalid))"

text \<open>The body of the loop over \<open>buttonMap\<close>.\<close>

definition attach_type :: "scan \<Rightarrow> nat \<times> buttonEntry \<Rightarrow> frameButton" where
  "attach_type st = (\<lambda>(key, button).
               \<lparr>index = index button, title = buttonEntry.title button,
                 type = nullish (map_get (buttonActionMap st) key) ''post''\<rparr>)"

text \<open>The second capture group for the three ways the pattern can end.\<close>

definition group2 :: "string \<Rightarrow> string option" where
  "group2 sfx = (if sfx = [] then None else Some (tl sfx))"

text \<open>A \<open>meta\<close> element with both attributes, for examples.\<close>

definition meta :: "string \<Rightarrow> string \<Rightarrow> metaTag" where
  "meta p c = \<lparr>property_attr = Some p, content_attr = Some c, outerHTML = []\<rparr>"

subsection \<open>Encoder\<close>

text \<open>A node whose tag is a function with \<open>__type === 'button'\<close>; the values
  \<open>parseIntents\<close> hands to \<open>parseIntent\<close>, in order; and the results that stand for them in
  the value \<open>parseIntents\<close> returns.\<close>

definition button_tagged :: "jsvalue \<Rightarrow> bool" where
  "button_tagged v =
     (case v of
        VNode n \<Rightarrow> (case tag n of Comp f \<Rightarrow> fn_type f = Some ''button'' | Elem _ \<Rightarrow> False)
      | _ \<Rightarrow> False)"

definition visited :: "jsvalue \<Rightarrow> jsvalue list" where
  "visited intents =
     (case intents of
        VArray es \<Rightarrow> es
      | VNode n \<Rightarrow>
          if (case children n of [] \<Rightarrow> False | c # _ \<Rightarrow> typeof_object c) then children n
          else [VNode n]
      | _ \<Rightarrow> [])"

definition produced :: "jsvalue \<Rightarrow> jsvalue \<Rightarrow> jsvalue list" where
  "produced intents out =
     (case intents of
        VArray _ \<Rightarrow> (case out of VArray rs \<Rightarrow> rs | _ \<Rightarrow> [])
      | VNode n \<Rightarrow>
          if (case children n of [] \<Rightarrow> False | c # _ \<Rightarrow> typeof_object c)
          then (case out of VNode m \<Rightarrow> children m | _ \<Rightarrow> [])
          else [out]
      | _ \<Rightarrow> [])"

text \<open>A single root node is treated as a container when its first child is an object
  (the test \<open>typeof intents.children[0] === 'object'\<close>); the button-tagged nodes of a
  whole tree, in traversal order (a node before its children, children left to right).\<close>

definition is_container :: "jsxNode \<Rightarrow> bool" where
  "is_container n = (case children n of [] \<Rightarrow> False | c # _ \<Rightarrow> typeof_object c)"

fun tagged_buttons :: "jsvalue \<Rightarrow> jsvalue list" where
  "tagged_buttons (VNode (JSXNode t ps cs)) =
     (if button_tagged (VNode (JSXNode t ps cs)) then [VNode (JSXNode t ps cs)] else []) @
     concat (map tagged_buttons cs)"
| "tagged_buttons (VArray vs) = concat (map tagged_buttons vs)"
| "tagged_buttons VUndefined = []"
| "tagged_buttons VNull = []"
| "tagged_buttons (VBool b) = []"
| "tagged_buttons (VNum n) = []"
| "tagged_buttons (VStr s) = []"

text \<open>The environment of a program that defines no function of its own.\<close>

definition no_custom :: "string \<Rightarrow> jsprops \<Rightarrow> jsvalue" where
  "no_custom name ps = VUndefined"

section \<open>Properties of the decoder\<close>

subsection \<open>The loop, one tag at a time\<close>

lemma scan_tags_snoc: "scan_tags (ts @ [t]) = scan_tag (scan_tags ts) t"
  by (simp add: scan_tags_def)

lemma order_of_scan_tag:
  "order_of (scan_tag st t) =
     (case plain_index t of None \<Rightarrow> order_of st | Some i \<Rightarrow> order_step (order_of st) i)"
  by (auto simp: scan_tag_def plain_index_def order_of_def Let_def
           split: option.splits prod.splits)

lemma order_of_scan_tags:
  "order_of (scan_tags ts) = foldl order_step (order_of scan_init) (plain_button_indices ts)"
proof (induction ts rule: rev_induct)
  case Nil
  show ?case by (simp add: scan_tags_def plain_button_indices_def List.map_filter_simps)
next
  case (snoc t ts)
  show ?case
    by (cases "plain_index t")
       (simp_all add: scan_tags_snoc order_of_scan_tag snoc plain_button_indices_def
         List.map_filter_def)
qed

lemma order_upto:
  "foldl order_step (0, False, False, []) [1..<Suc k] = (k, False, False, [])"
  by (induction k) simp_all

lemma debug_order:
  "debug.buttonsAreOutOfOrder (debug (htmlToFrame ts)) =
     (fst (snd (order_of (scan_tags ts))) \<or> fst (snd (snd (order_of (scan_tags ts)))))"
  "debug.invalidButtons (debug (htmlToFrame ts)) = snd (snd (snd (order_of (scan_tags ts))))"
  by (simp_all add: htmlToFrame_def order_of_def Let_def)

lemma order_init: "order_of scan_init = (0, False, False, [])"
  by (simp add: order_of_def scan_init_def)

lemma plain_index_meta_simps:
  "plain_index (meta ''fc:frame:button:1'' c) = Some 1"
  "plain_index (meta ''fc:frame:button:2'' c) = Some 2"
  "plain_index (meta ''fc:frame:button:3'' c) = Some 3"
  "plain_index (meta ''fc:frame:button:4'' c) = Some 4"
  by (simp_all add: plain_index_def meta_def validPropertyNames_def match_here_def match_groups_def
        parseInt10_def digit_val_def)

subsection \<open>The maps\<close>

lemma last_content_snoc:
  "last_content P (ts @ [t]) = (if P t then Some (content_of t) else last_content P ts)"
  by (simp add: last_content_def)

lemma last_content_Nil: "last_content P [] = None"
  by (simp add: last_content_def)

lemma map_of_map_set: "map_of (map_set k v m) = (map_of m)(k \<mapsto> v)"
  by (induction m) (auto simp: fun_eq_iff)

lemma set_fst_map_set: "fst ` set (map_set k v m) = insert k (fst ` set m)"
proof -
  have "fst ` set (map_set k v m) = dom (map_of (map_set k v m))"
    by (simp add: dom_map_of_conv_image_fst)
  also have "\<dots> = insert k (dom (map_of m))"
    by (simp add: map_of_map_set)
  finally show ?thesis
    by (simp add: dom_map_of_conv_image_fst)
qed

lemma distinct_map_set: "distinct (map fst m) \<Longrightarrow> distinct (map fst (map_set k v m))"
  by (induction m) (auto simp: set_fst_map_set)

lemma properties_scan_tag:
  "properties (scan_tag st t) =
     (case property_attr t of
        None \<Rightarrow> properties st
      | Some p \<Rightarrow> if p \<in> validPropertyNames then (properties st)(p \<mapsto> content_of t)
                  else properties st)"
  by (auto simp: scan_tag_def Let_def content_of_def validPropertyNames_def
           split: option.splits prod.splits)

lemma properties_scan_tags:
  "p \<in> validPropertyNames \<Longrightarrow>
     properties (scan_tags ts) p = last_content (\<lambda>t. property_attr t = Some p) ts"
proof (induction ts rule: rev_induct)
  case Nil
  show ?case by (simp add: scan_tags_def scan_init_def last_content_Nil)
next
  case (snoc t ts)
  then show ?case
    by (auto simp: scan_tags_snoc properties_scan_tag last_content_snoc split: option.splits)
qed

lemma buttonMap_scan_tag:
  "buttonMap (scan_tag st t) =
     (case plain_index t of
        None \<Rightarrow> buttonMap st
      | Some i \<Rightarrow> map_set i \<lparr>index = i, title = TStr (content_of t)\<rparr> (buttonMap st))"
  by (auto simp: scan_tag_def plain_index_def Let_def content_of_def nullish_def
           split: option.splits prod.splits)

lemma buttonActionMap_scan_tag:
  "buttonActionMap (scan_tag st t) =
     (case action_index t of
        None \<Rightarrow> buttonActionMap st
      | Some i \<Rightarrow> map_set i (content_of t) (buttonActionMap st))"
  by (auto simp: scan_tag_def action_index_def Let_def content_of_def
           split: option.splits prod.splits)

lemma distinct_buttonMap: "distinct (map fst (buttonMap (scan_tags ts)))"
proof (induction ts rule: rev_induct)
  case Nil
  show ?case by (simp add: scan_tags_def scan_init_def)
next
  case (snoc t ts)
  then show ?case
    by (simp add: scan_tags_snoc buttonMap_scan_tag distinct_map_set split: option.splits)
qed

lemma map_of_buttonMap:
  "map_of (buttonMap (scan_tags ts)) i =
     map_option (\<lambda>c. \<lparr>index = i, title = TStr c\<rparr>)
       (last_content (\<lambda>t. plain_index t = Some i) ts)"
proof (induction ts rule: rev_induct)
  case Nil
  show ?case by (simp add: scan_tags_def scan_init_def last_content_Nil)
next
  case (snoc t ts)
  then show ?case
    by (auto simp: scan_tags_snoc buttonMap_scan_tag map_of_map_set last_content_snoc
             split: option.splits)
qed

lemma map_of_buttonActionMap:
  "map_of (buttonActionMap (scan_tags ts)) i =
     last_content (\<lambda>t. action_index t = Some i) ts"
proof (induction ts rule: rev_induct)
  case Nil
  show ?case by (simp add: scan_tags_def scan_init_def last_content_Nil)
next
  case (snoc t ts)
  then show ?case
    by (auto simp: scan_tags_snoc buttonActionMap_scan_tag map_of_map_set last_content_snoc
             split: option.splits)
qed

lemma buttonMap_index:
  assumes "(k, b) \<in> set (buttonMap (scan_tags ts))"
  shows "index b = k"
proof -
  from assms have "map_of (buttonMap (scan_tags ts)) k = Some b"
    by (simp add: distinct_buttonMap)
  then show ?thesis
    by (auto simp: map_of_buttonMap)
qed

subsection \<open>The sorted button list\<close>

lemma buttons_htmlToFrame: "buttons (htmlToFrame ts) = make_buttons (scan_tags ts)"
  by (simp add: htmlToFrame_def Let_def)

lemma make_buttons_alt: "make_buttons st = sort_key index (map (attach_type st) (buttonMap st))"
  by (simp add: make_buttons_def attach_type_def)

lemma index_attach:
  "map index (map (attach_type (scan_tags ts)) (buttonMap (scan_tags ts))) =
     map fst (buttonMap (scan_tags ts))"
  by (auto simp: attach_type_def buttonMap_index)

lemma distinct_index_unsorted:
  "distinct (map index (map (attach_type (scan_tags ts)) (buttonMap (scan_tags ts))))"
  by (simp only: index_attach distinct_buttonMap)

lemma distinct_map_sort_key: "distinct (map f (sort_key g xs)) = distinct (map f xs)"
  by (simp add: distinct_map)

lemma sorted_buttons: "sorted (map index (buttons (htmlToFrame ts)))"
  by (simp add: buttons_htmlToFrame make_buttons_alt)

lemma distinct_buttons: "distinct (map index (buttons (htmlToFrame ts)))"
  unfolding buttons_htmlToFrame make_buttons_alt distinct_map_sort_key
  by (rule distinct_index_unsorted)

lemma map_of_sort_key:
  assumes "distinct (map f xs)"
  shows "map_of (map (\<lambda>b. (f b, b)) (sort_key g xs)) = map_of (map (\<lambda>b. (f b, b)) xs)"
proof -
  have "distinct (map fst (map (\<lambda>b. (f b, b)) xs))"
    using assms by (simp add: comp_def)
  moreover have "distinct (map fst (map (\<lambda>b. (f b, b)) (sort_key g xs)))"
    using assms by (simp add: comp_def distinct_map_sort_key)
  ultimately show ?thesis
    by (simp add: map_of_inject_set)
qed

lemma map_of_keyed_map:
  "(\<And>k b. (k, b) \<in> set m \<Longrightarrow> f (g (k, b)) = k) \<Longrightarrow>
     map_of (map (\<lambda>b. (f b, b)) (map g m)) i = map_option (\<lambda>b. g (i, b)) (map_of m i)"
  by (induction m) auto

lemma map_of_attach:
  "map_of (map (\<lambda>b. (index b, b)) (map (attach_type (scan_tags ts)) (buttonMap (scan_tags ts)))) i =
     map_option (\<lambda>b. attach_type (scan_tags ts) (i, b)) (map_of (buttonMap (scan_tags ts)) i)"
  by (rule map_of_keyed_map) (simp add: attach_type_def buttonMap_index)

lemma fallback_eq:
  "fallbackImageToUrl (debug (htmlToFrame ts)) =
     (nullish (properties (scan_tags ts) ''fc:frame:image'') [] = [])"
  by (simp add: htmlToFrame_def Let_def)

lemma last_content_filter:
  "(\<And>t. P t \<Longrightarrow> Q t) \<Longrightarrow> last_content P (filter Q ts) = last_content P ts"
proof -
  assume "\<And>t. P t \<Longrightarrow> Q t"
  then have "filter P (filter Q ts) = filter P ts"
    by (auto intro: filter_cong)
  then show ?thesis by (simp only: last_content_def)
qed

subsection \<open>The button pattern\<close>

lemma strip_prefix_Some: "strip_prefix p s = Some r \<longleftrightarrow> s = p @ r"
  by (induction p s rule: strip_prefix.induct) auto

lemma match_groups_SomeD:
  assumes "match_groups r = Some m"
  shows "\<exists>d. d \<in> set ''1234'' \<and>
           ((r = [d] \<and> m = ([d], None)) \<or>
            (r = d # '':action'' \<and> m = ([d], Some ''action'')) \<or>
            (r = d # '':target'' \<and> m = ([d], Some ''target'')))"
proof (cases r)
  case Nil
  with assms show ?thesis by (simp add: match_groups_def)
next
  case (Cons d rest)
  with assms have d: "d \<in> set ''1234''"
    by (simp add: match_groups_def split: if_splits)
  show ?thesis
  proof (cases "rest = '':action''")
    case True
    with assms Cons d show ?thesis by (simp add: match_groups_def)
  next
    case na: False
    show ?thesis
    proof (cases "rest = '':target''")
      case True
      with assms Cons d show ?thesis by (simp add: match_groups_def)
    next
      case False
      with na assms Cons d have "rest = [] \<and> m = ([d], None)"
        by (simp add: match_groups_def split: if_splits)
      with Cons d show ?thesis by simp
    qed
  qed
qed

lemma match_here_SomeD:
  assumes "match_here s = Some m"
  shows "\<exists>d sfx. d \<in> set ''1234'' \<and> sfx \<in> {[], '':action'', '':target''} \<and>
           s = ''fc:frame:button:'' @ d # sfx"
proof -
  from assms obtain r where r: "strip_prefix ''fc:frame:button:'' s = Some r"
     and g: "match_groups r = Some m"
    by (auto simp: match_here_def split: option.splits)
  from r have s: "s = ''fc:frame:button:'' @ r"
    by (simp only: strip_prefix_Some)
  from match_groups_SomeD [OF g] s show ?thesis by auto
qed

lemma match_here_pattern:
  assumes "d \<in> set ''1234''" "sfx \<in> {[], '':action'', '':target''}"
  shows "match_here (''fc:frame:button:'' @ d # sfx) = Some ([d], group2 sfx)"
  using assms by (auto simp: match_here_def match_groups_def group2_def)

lemma match_here_longer:
  assumes d: "d \<in> set ''1234''" and sfx: "sfx \<in> {[], '':action'', '':target''}"
    and m: "match_here (c # pre @ ''fc:frame:button:'' @ d # sfx) = Some m"
  shows False
proof -
  let ?s = "c # pre @ ''fc:frame:button:'' @ d # sfx"
  from match_here_SomeD [OF m] obtain d' sfx' where
    s: "?s = ''fc:frame:button:'' @ d' # sfx'" and sfx': "sfx' \<in> {[], '':action'', '':target''}"
    by auto
  from s have len: "length ?s = length (''fc:frame:button:'' @ d' # sfx')" by simp
  from len sfx sfx' have l: "length pre = 6" and e: "sfx = []" and sfx' : "sfx' \<noteq> []"
    by auto
  from s e have "drop 7 ?s = drop 7 (''fc:frame:button:'' @ d' # sfx')" by simp
  with l e have "''fc:frame:button:'' @ [d] = drop 7 (''fc:frame:button:'' @ d' # sfx')"
    by simp
  then show False by simp
qed

lemma buttonRegex_exec_suffix:
  assumes "d \<in> set ''1234''" "sfx \<in> {[], '':action'', '':target''}"
  shows "buttonRegex_exec (pre @ ''fc:frame:button:'' @ d # sfx) = Some ([d], group2 sfx)"
proof (induction pre)
  case Nil
  show ?case
    using match_here_pattern [OF assms] by simp
next
  case (Cons c pre)
  have "match_here (c # pre @ ''fc:frame:button:'' @ d # sfx) = None"
    using match_here_longer [OF assms] by (cases "match_here (c # pre @ ''fc:frame:button:'' @ d # sfx)") auto
  with Cons show ?case by simp
qed

lemma pattern_not_fixed_name:
  assumes "d \<in> set ''1234''" "sfx \<in> {[], '':action'', '':target''}"
  shows "pre @ ''fc:frame:button:'' @ d # sfx \<notin> validPropertyNames"
proof
  assume "pre @ ''fc:frame:button:'' @ d # sfx \<in> validPropertyNames"
  then have "rev (pre @ ''fc:frame:button:'' @ d # sfx) \<in> rev ` validPropertyNames"
    by (rule imageI)
  then have "rev sfx @ d # rev ''fc:frame:button:'' @ rev pre \<in> rev ` validPropertyNames"
    by simp
  with assms show False
    by (auto simp: validPropertyNames_def)
qed

lemma parseInt10_digit:
  assumes "d \<in> set ''1234''"
  shows "1 \<le> parseInt10 [d] \<and> parseInt10 [d] \<le> 4"
  using assms by (auto simp: parseInt10_def digit_val_def)

lemma show_nat_1: "show_nat (Suc 0) = ''1''"
  by code_simp

lemma show_nat_2: "show_nat 2 = ''2''"
  by code_simp

lemma show_nat_digits:
  "show_nat 1 = ''1''" "show_nat 2 = ''2''" "show_nat 3 = ''3''" "show_nat 4 = ''4''"
  by code_simp+

lemma parseInt10_digits:
  "parseInt10 ''1'' = 1" "parseInt10 ''2'' = 2" "parseInt10 ''3'' = 3" "parseInt10 ''4'' = 4"
  by (simp_all add: parseInt10_def digit_val_def)

lemma index_digit:
  assumes "n \<in> {1, 2, 3, 4}"
  shows "\<exists>d. show_nat n = [d] \<and> d \<in> set ''1234'' \<and> parseInt10 [d] = n"
  using assms by (auto simp: show_nat_digits show_nat_1 parseInt10_digits)

lemmas eval_defs = htmlToFrame_def scan_tags_def scan_tag_def scan_init_def meta_def nullish_def
  validPropertyNames_def match_here_def match_groups_def parseInt10_def digit_val_def
  make_buttons_def map_get_def Let_def

subsection \<open>Ordering diagnostics\<close>

text \<open>C2, as the code behaves: in every document whose plain button tags have the indices
  2, 1 in document order, the reported \<open>buttonsAreOutOfOrder\<close> is true and \<open>invalidButtons\<close>
  is \<open>[2, 1]\<close>. The tag with index 2 arrives while \<open>currentButtonIndex\<close> is 0, which sets
  \<open>buttonsAreMissing\<close> and records 2; the flag stays set, so the tag with index 1 is
  recorded as well.\<close>

theorem button_2_then_1_invalid:
  "plain_button_indices ts = [2, 1] \<Longrightarrow>
     debug.buttonsAreOutOfOrder (debug (htmlToFrame ts)) = True \<and>
     debug.invalidButtons (debug (htmlToFrame ts)) = [2, 1]"
  by (simp add: debug_order order_of_scan_tags order_init)

theorem button_2_then_1_invalid_witness:
  "plain_button_indices [meta ''fc:frame:button:2'' ''No'', meta ''fc:frame:button:1'' ''Yes'']
     = [2, 1] \<and>
   debug.buttonsAreOutOfOrder
     (debug (htmlToFrame [meta ''fc:frame:button:2'' ''No'', meta ''fc:frame:button:1'' ''Yes'']))
     = True \<and>
   debug.invalidButtons
     (debug (htmlToFrame [meta ''fc:frame:button:2'' ''No'', meta ''fc:frame:button:1'' ''Yes'']))
     = [2, 1]"
  using button_2_then_1_invalid
    [of "[meta ''fc:frame:button:2'' ''No'', meta ''fc:frame:button:1'' ''Yes'']"]
  by (simp add: plain_button_indices_def List.map_filter_simps plain_index_meta_simps)

text \<open>C2 as the specification states it (\<open>invalidButtons = [1]\<close>) fails on the document
  that holds the tag for button 2 followed by the tag for button 1.\<close>

theorem button_2_then_1_not_only_1:
  "\<not> (debug.buttonsAreOutOfOrder
        (debug (htmlToFrame [meta ''fc:frame:button:2'' ''No'', meta ''fc:frame:button:1'' ''Yes'']))
        = True \<and>
      debug.invalidButtons
        (debug (htmlToFrame [meta ''fc:frame:button:2'' ''No'', meta ''fc:frame:button:1'' ''Yes'']))
        = [1])"
  by (simp add: eval_defs)

text \<open>C3: for every k with 1 \<le> k \<le> 4 and every document whose plain button tags have, in
  document order, the indices 1, ..., k, the decoder reports \<open>buttonsAreOutOfOrder = false\<close>
  and \<open>invalidButtons = []\<close>.\<close>

theorem buttons_in_order_valid:
  "1 \<le> k \<Longrightarrow> k \<le> 4 \<Longrightarrow> plain_button_indices ts = [1..<Suc k] \<Longrightarrow>
     debug.buttonsAreOutOfOrder (debug (htmlToFrame ts)) = False \<and>
     debug.invalidButtons (debug (htmlToFrame ts)) = []"
  by (simp only: debug_order order_of_scan_tags order_init order_upto) simp

theorem buttons_in_order_valid_witness:
  "(1::nat) \<le> 2 \<and> (2::nat) \<le> 4 \<and>
   plain_button_indices [meta ''fc:frame:button:1'' ''Yes'', meta ''fc:frame:button:2'' ''No'']
     = [1..<Suc 2] \<and>
   debug.buttonsAreOutOfOrder
     (debug (htmlToFrame [meta ''fc:frame:button:1'' ''Yes'', meta ''fc:frame:button:2'' ''No'']))
     = False \<and>
   debug.invalidButtons
     (debug (htmlToFrame [meta ''fc:frame:button:1'' ''Yes'', meta ''fc:frame:button:2'' ''No'']))
     = []"
proof -
  have u: "[1..<Suc 2] = [1, 2]"
    by code_simp
  have p: "plain_button_indices
             [meta ''fc:frame:button:1'' ''Yes'', meta ''fc:frame:button:2'' ''No'']
           = [1..<Suc 2]"
    unfolding u
    by (simp add: plain_button_indices_def List.map_filter_simps plain_index_meta_simps)
  have k: "(1::nat) \<le> 2" "(2::nat) \<le> 4"
    by simp_all
  from buttons_in_order_valid [OF k p] k p show ?thesis
    by blast
qed

subsection \<open>Buttons\<close>

text \<open>C6: for every document the decoded \<open>buttons\<close> are sorted ascending by index, no index
  occurs twice, and the button with index \<open>i\<close> exists exactly when the document has a plain
  button tag with index \<open>i\<close>; its title is the content of the last such tag in document
  order, and its type is the content of the last action or target tag for \<open>i\<close>, or
  \<open>post\<close>.\<close>

theorem buttons_sorted_last_wins:
  "sorted (map index (buttons (htmlToFrame ts))) \<and>
   distinct (map index (buttons (htmlToFrame ts))) \<and>
   map_of (map (\<lambda>b. (index b, b)) (buttons (htmlToFrame ts))) i =
     map_option
       (\<lambda>c. \<lparr>index = i, title = TStr c,
             type = nullish (last_content (\<lambda>t. action_index t = Some i) ts) ''post''\<rparr>)
       (last_content (\<lambda>t. plain_index t = Some i) ts)"
proof -
  have "map_of (map (\<lambda>b. (index b, b)) (buttons (htmlToFrame ts))) i =
        map_option (\<lambda>b. attach_type (scan_tags ts) (i, b)) (map_of (buttonMap (scan_tags ts)) i)"
    unfolding buttons_htmlToFrame make_buttons_alt
    by (simp only: map_of_sort_key [OF distinct_index_unsorted] map_of_attach)
  also have "\<dots> = map_option
       (\<lambda>c. \<lparr>index = i, title = TStr c,
             type = nullish (last_content (\<lambda>t. action_index t = Some i) ts) ''post''\<rparr>)
       (last_content (\<lambda>t. plain_index t = Some i) ts)"
    by (simp add: map_of_buttonMap option.map_comp comp_def attach_type_def map_get_def
          map_of_buttonActionMap)
  finally show ?thesis
    using sorted_buttons distinct_buttons by blast
qed

text \<open>C7 on the code: a \<open>fc:frame:button:2\<close> tag with empty content decodes to a button
  whose title is the empty string, not \<open>"2"\<close>. \<open>content\<close> is a string after
  \<open>getAttribute('content') ?? ''\<close>, so \<open>content ?? index\<close> never takes the index.\<close>

theorem empty_content_title_is_empty:
  "buttons (htmlToFrame [meta ''fc:frame:button:2'' '''']) =
     [\<lparr>index = 2, title = TStr '''', type = ''post''\<rparr>]"
  by (simp add: eval_defs)

subsection \<open>The image fallback\<close>

text \<open>C8, as the code behaves: \<open>fallbackImageToUrl\<close> is true exactly when the document has
  no \<open>fc:frame:image\<close> tag or the last one has an empty or absent content; tags with the
  property \<open>og:image\<close> play no role.\<close>

theorem fallbackImageToUrl_iff_empty:
  "(fallbackImageToUrl (debug (htmlToFrame ts)) \<longleftrightarrow>
      (case last_content (\<lambda>t. property_attr t = Some ''fc:frame:image'') ts of
         None \<Rightarrow> True
       | Some c \<Rightarrow> c = [])) \<and>
   fallbackImageToUrl
     (debug (htmlToFrame (filter (\<lambda>t. property_attr t \<noteq> Some ''og:image'') ts))) =
     fallbackImageToUrl (debug (htmlToFrame ts))"
proof -
  have v: "''fc:frame:image'' \<in> validPropertyNames"
    by (simp add: validPropertyNames_def)
  have a: "fallbackImageToUrl (debug (htmlToFrame us)) \<longleftrightarrow>
      (case last_content (\<lambda>t. property_attr t = Some ''fc:frame:image'') us of
         None \<Rightarrow> True
       | Some c \<Rightarrow> c = [])" for us
    by (simp add: fallback_eq properties_scan_tags [OF v] nullish_def split: option.splits)
  have "last_content (\<lambda>t. property_attr t = Some ''fc:frame:image'')
          (filter (\<lambda>t. property_attr t \<noteq> Some ''og:image'') ts) =
        last_content (\<lambda>t. property_attr t = Some ''fc:frame:image'') ts"
    by (rule last_content_filter) simp
  then show ?thesis
    by (simp only: a)
qed

text \<open>C8 as the specification states it fails on a document whose only tag is a
  \<open>fc:frame:image\<close> tag with empty content: the tag is present and the flag is true.\<close>

theorem fallbackImageToUrl_present_tag:
  "\<not> (fallbackImageToUrl (debug (htmlToFrame [meta ''fc:frame:image'' ''''])) \<longleftrightarrow>
       \<not> (\<exists>t \<in> set [meta ''fc:frame:image'' '''']. property_attr t = Some ''fc:frame:image''))"
  by (simp add: eval_defs)

subsection \<open>The pattern is anchored at the end only\<close>

text \<open>C10: a property that ends with \<open>fc:frame:button:\<close>, the numeral of an index
  \<open>n\<close> from 1 to 4 and nothing, \<open>:action\<close> or \<open>:target\<close> matches the pattern whatever
  precedes it, and the index the loop reads is \<open>n\<close>. Without a suffix the loop runs the
  ordering check for \<open>n\<close> and stores the button \<open>n\<close> with the tag's content as title; with
  a suffix it stores the tag's content in the action map under \<open>n\<close>. The leading characters
  play no role in the result.\<close>

theorem button_pattern_anchored_at_end:
  assumes "n \<in> {1, 2, 3, 4}" and "sfx \<in> {[], '':action'', '':target''}"
  shows
    "buttonRegex_exec (pre @ ''fc:frame:button:'' @ show_nat n @ sfx) =
       Some (show_nat n, group2 sfx) \<and>
     parseInt10 (show_nat n) = n \<and>
     scan_tag st \<lparr>property_attr = Some (pre @ ''fc:frame:button:'' @ show_nat n @ sfx),
                   content_attr = c, outerHTML = h\<rparr> =
       (if sfx = [] then
          st\<lparr>currentButtonIndex :=
                (if currentButtonIndex st + 1 = n then n else currentButtonIndex st),
              buttonsAreMissing :=
                (if currentButtonIndex st + 1 = n then buttonsAreMissing st else True),
              scan.buttonsAreOutOfOrder :=
                (if n \<le> currentButtonIndex st then True else scan.buttonsAreOutOfOrder st),
              buttonMap :=
                map_set n \<lparr>index = n, title = TStr (nullish c [])\<rparr> (buttonMap st),
              scan.invalidButtons :=
                (if (if n \<le> currentButtonIndex st then True
                     else scan.buttonsAreOutOfOrder st) \<or>
                    (if currentButtonIndex st + 1 = n then buttonsAreMissing st else True)
                 then scan.invalidButtons st @ [n] else scan.invalidButtons st)\<rparr>
        else st\<lparr>buttonActionMap := map_set n (nullish c []) (buttonActionMap st)\<rparr>)"
proof -
  from index_digit [OF assms(1)] obtain d where
    d: "show_nat n = [d]" "d \<in> set ''1234''" "parseInt10 [d] = n"
    by blast
  note e = buttonRegex_exec_suffix [OF d(2) assms(2), of pre]
  note v = pattern_not_fixed_name [OF d(2) assms(2), of pre]
  have g: "group2 sfx = None \<longleftrightarrow> sfx = []"
    by (simp add: group2_def)
  have "scan_tag st \<lparr>property_attr = Some (pre @ ''fc:frame:button:'' @ d # sfx),
                   content_attr = c, outerHTML = h\<rparr> =
       (if sfx = [] then
          st\<lparr>currentButtonIndex :=
                (if currentButtonIndex st + 1 = n then n else currentButtonIndex st),
              buttonsAreMissing :=
                (if currentButtonIndex st + 1 = n then buttonsAreMissing st else True),
              scan.buttonsAreOutOfOrder :=
                (if n \<le> currentButtonIndex st then True else scan.buttonsAreOutOfOrder st),
              buttonMap :=
                map_set n \<lparr>index = n, title = TStr (nullish c [])\<rparr> (buttonMap st),
              scan.invalidButtons :=
                (if (if n \<le> currentButtonIndex st then True
                     else scan.buttonsAreOutOfOrder st) \<or>
                    (if currentButtonIndex st + 1 = n then buttonsAreMissing st else True)
                 then scan.invalidButtons st @ [n] else scan.invalidButtons st)\<rparr>
        else st\<lparr>buttonActionMap := map_set n (nullish c []) (buttonActionMap st)\<rparr>)"
  proof (cases "sfx = []")
    case True
    with e v d(3) show ?thesis
      by (simp add: scan_tag_def group2_def Let_def nullish_def)
  next
    case False
    with e v d(3) show ?thesis
      by (simp add: scan_tag_def group2_def Let_def)
  qed
  with e d show ?thesis
    by simp
qed

theorem button_pattern_anchored_at_end_witness:
  "(3::nat) \<in> {1, 2, 3, 4} \<and> [] \<in> {[], '':action'', '':target''} \<and>
   buttonRegex_exec ''xfc:frame:button:3'' = Some (''3'', None) \<and>
   parseInt10 ''3'' = 3 \<and>
   scan_tag scan_init (meta ''xfc:frame:button:3'' ''Yes'') =
     scan_init\<lparr>buttonsAreMissing := True,
       buttonMap := [(3, \<lparr>index = 3, title = TStr ''Yes''\<rparr>)],
       scan.invalidButtons := [3]\<rparr>"
  using button_pattern_anchored_at_end
    [of 3 "[]" "''x''" scan_init "Some ''Yes''" "[]"]
  by (simp add: group2_def meta_def show_nat_digits scan_init_def nullish_def)

section \<open>Properties of the encoder\<close>

lemma parseIntent_counter:
  "parseIntent env e c = Inr (r, c') \<Longrightarrow> c' = c + (if button_tagged e then 1 else 0)"
  by (auto simp: parseIntent_def button_tagged_def truthy_def
           split: if_splits jsvalue.splits tag.splits)

lemma parseIntent_map_spec:
  "parseIntent_map env es c = Inr (rs, c') \<Longrightarrow>
     length rs = length es \<and> c' = c + length (filter button_tagged es) \<and>
     (\<forall>i<length es.
        parseIntent env (es ! i) (c + length (filter button_tagged (take i es))) =
          Inr (rs ! i, c + length (filter button_tagged (take (Suc i) es))))"
proof (induction es arbitrary: c rs)
  case Nil
  then show ?case by simp
next
  case (Cons e es)
  from Cons.prems obtain r c1 rs' where
    e: "parseIntent env e c = Inr (r, c1)" and
    es: "parseIntent_map env es c1 = Inr (rs', c')" and
    rs: "rs = r # rs'"
    by (auto split: sum.splits prod.splits)
  note c1 = parseIntent_counter [OF e]
  note IH = Cons.IH [OF es]
  show ?case
  proof (intro conjI allI impI)
    show "length rs = length (e # es)" using IH rs by simp
    show "c' = c + length (filter button_tagged (e # es))" using IH c1 by simp
  next
    fix i assume i: "i < length (e # es)"
    show "parseIntent env ((e # es) ! i) (c + length (filter button_tagged (take i (e # es)))) =
          Inr (rs ! i, c + length (filter button_tagged (take (Suc i) (e # es))))"
    proof (cases i)
      case 0
      with e c1 rs show ?thesis by simp
    next
      case (Suc j)
      with i have "j < length es" by simp
      with IH have "parseIntent env (es ! j) (c1 + length (filter button_tagged (take j es))) =
          Inr (rs' ! j, c1 + length (filter button_tagged (take (Suc j) es)))" by blast
      with Suc c1 rs show ?thesis by (cases "button_tagged e") simp_all
    qed
  qed
qed

lemma parseIntents_visited:
  assumes "parseIntents env intents = Inr out"
  shows "\<exists>c. parseIntent_map env (visited intents) 1 = Inr (produced intents out, c)"
  using assms
  by (auto simp: parseIntents_def visited_def produced_def Let_def
           split: jsvalue.splits sum.splits prod.splits if_splits)

lemma parseIntents_container:
  assumes "parseIntents env (VNode (JSXNode t ps cs)) = Inr out"
    and "is_container (JSXNode t ps cs)"
  shows "out = VNode (JSXNode t ps (produced (VNode (JSXNode t ps cs)) out)) \<and>
         visited (VNode (JSXNode t ps cs)) = cs"
  using assms
  by (auto simp: parseIntents_def produced_def visited_def is_container_def Let_def
           split: sum.splits prod.splits if_splits list.splits)

text \<open>C5, as the code behaves: \<open>parseIntents\<close> hands to \<open>parseIntent\<close> the elements of a
  top-level array, or the children of a single root node whose first child is an object,
  or else the single root node; \<open>parseIntent\<close> does not look inside a node. When the
  encoder accepts a tree, the node handed over at position \<open>i\<close>, if button-tagged, is
  rendered with \<open>index\<close> equal to one plus the number of button-tagged nodes handed over
  before it (one counter for the whole traversal); a text-input-tagged node is rendered
  with its properties and children only and leaves that number as it was. A root node
  that is treated as a container is not handed over: it keeps its tag and properties, and
  only its children are replaced.\<close>

theorem button_index_by_traversal_order:
  assumes "parseIntents env intents = Inr out"
  shows "length (produced intents out) = length (visited intents) \<and>
     (\<forall>i f ps cs.
        i < length (visited intents) \<longrightarrow>
        visited intents ! i = VNode (JSXNode (Comp f) ps cs) \<longrightarrow>
          (fn_type f = Some ''button'' \<longrightarrow>
             produced intents out ! i =
               call env f
                 (map_set ''index''
                    (VNum (1 + length (filter button_tagged (take i (visited intents)))))
                    (map_set ''children'' (VArray cs) ps))) \<and>
          (fn_type f = Some ''text-input'' \<longrightarrow>
             produced intents out ! i = call env f (map_set ''children'' (VArray cs) ps) \<and>
             length (filter button_tagged (take (Suc i) (visited intents))) =
               length (filter button_tagged (take i (visited intents))))) \<and>
     (\<forall>t ps cs.
        intents = VNode (JSXNode t ps cs) \<longrightarrow> is_container (JSXNode t ps cs) \<longrightarrow>
          visited intents = cs \<and> out = VNode (JSXNode t ps (produced intents out)))"
proof -
  from parseIntents_visited [OF assms] obtain c where
    m: "parseIntent_map env (visited intents) 1 = Inr (produced intents out, c)" ..
  note spec = parseIntent_map_spec [OF m]
  have a: "(fn_type f = Some ''button'' \<longrightarrow>
             produced intents out ! i =
               call env f
                 (map_set ''index''
                    (VNum (1 + length (filter button_tagged (take i (visited intents)))))
                    (map_set ''children'' (VArray cs) ps))) \<and>
          (fn_type f = Some ''text-input'' \<longrightarrow>
             produced intents out ! i = call env f (map_set ''children'' (VArray cs) ps) \<and>
             length (filter button_tagged (take (Suc i) (visited intents))) =
               length (filter button_tagged (take i (visited intents))))"
    if i: "i < length (visited intents)"
      and n: "visited intents ! i = VNode (JSXNode (Comp f) ps cs)" for i f ps cs
  proof -
    from spec i have
      "parseIntent env (visited intents ! i)
          (1 + length (filter button_tagged (take i (visited intents)))) =
        Inr (produced intents out ! i,
             1 + length (filter button_tagged (take (Suc i) (visited intents))))"
      by blast
    then show ?thesis
      unfolding n by (auto simp: parseIntent_def truthy_def)
  qed
  have b: "visited intents = cs \<and> out = VNode (JSXNode t ps (produced intents out))"
    if "intents = VNode (JSXNode t ps cs)" "is_container (JSXNode t ps cs)" for t ps cs
    using parseIntents_container [of env t ps cs out] assms that by simp
  from spec a b show ?thesis by blast
qed

theorem button_index_by_traversal_order_witness:
  "parseIntents no_custom
     (VArray [VNode (JSXNode (Comp Button) [] [VStr ''Yes'']),
              VNode (JSXNode (Comp TextInput) [(''placeholder'', VStr ''Why'')] []),
              VNode (JSXNode (Comp Button) [] [VStr ''No''])]) =
   Inr (VArray
     [Button_fn [(''children'', VArray [VStr ''Yes'']), (''index'', VNum 1)],
      TextInput_fn [(''placeholder'', VStr ''Why''), (''children'', VArray [])],
      Button_fn [(''children'', VArray [VStr ''No'']), (''index'', VNum 2)]]) \<and>
   produced
     (VArray [VNode (JSXNode (Comp Button) [] [VStr ''Yes'']),
              VNode (JSXNode (Comp TextInput) [(''placeholder'', VStr ''Why'')] []),
              VNode (JSXNode (Comp Button) [] [VStr ''No''])])
     (VArray
       [Button_fn [(''children'', VArray [VStr ''Yes'']), (''index'', VNum 1)],
        TextInput_fn [(''placeholder'', VStr ''Why''), (''children'', VArray [])],
        Button_fn [(''children'', VArray [VStr ''No'']), (''index'', VNum 2)]]) ! 2 =
   call no_custom Button [(''children'', VArray [VStr ''No'']), (''index'', VNum 2)] \<and>
   is_container (JSXNode (Elem ''div'') [] [VNode (JSXNode (Comp Button) [] [VStr ''A''])]) \<and>
   parseIntents no_custom
     (VNode (JSXNode (Elem ''div'') [] [VNode (JSXNode (Comp Button) [] [VStr ''A''])])) =
   Inr (VNode (JSXNode (Elem ''div'') []
          [Button_fn [(''children'', VArray [VStr ''A'']), (''index'', VNum 1)]]))"
proof -
  let ?I = "VArray [VNode (JSXNode (Comp Button) [] [VStr ''Yes'']),
              VNode (JSXNode (Comp TextInput) [(''placeholder'', VStr ''Why'')] []),
              VNode (JSXNode (Comp Button) [] [VStr ''No''])]"
  let ?O = "VArray
       [Button_fn [(''children'', VArray [VStr ''Yes'']), (''index'', VNum 1)],
        TextInput_fn [(''placeholder'', VStr ''Why''), (''children'', VArray [])],
        Button_fn [(''children'', VArray [VStr ''No'']), (''index'', VNum 2)]]"
  let ?D = "JSXNode (Elem ''div'') [] [VNode (JSXNode (Comp Button) [] [VStr ''A''])]"
  let ?E = "VNode (JSXNode (Elem ''div'') []
          [Button_fn [(''children'', VArray [VStr ''A'']), (''index'', VNum 1)]])"
  have a: "parseIntents no_custom ?I = Inr ?O"
    by (simp add: parseIntents_def parseIntent_def truthy_def numeral_2_eq_2)
  have b: "2 < length (visited ?I)"
    by (simp add: visited_def)
  have c: "visited ?I ! 2 = VNode (JSXNode (Comp Button) [] [VStr ''No''])"
    by (simp add: visited_def)
  have d: "is_container ?D"
    by (simp add: is_container_def typeof_object_def)
  have e: "parseIntents no_custom (VNode ?D) = Inr ?E"
    by (simp add: parseIntents_def parseIntent_def truthy_def typeof_object_def)
  from button_index_by_traversal_order [OF a] b c have
    "produced ?I ?O ! 2 =
       call no_custom Button
         (map_set ''index'' (VNum (1 + length (filter button_tagged (take 2 (visited ?I)))))
            (map_set ''children'' (VArray [VStr ''No'']) []))"
    by (simp del: call.simps)
  moreover from button_index_by_traversal_order [OF e] d have "?E = VNode (JSXNode (Elem ''div'') [] (produced (VNode ?D) ?E))"
    by blast
  ultimately show ?thesis
    using a d e by (simp add: visited_def button_tagged_def numeral_2_eq_2)
qed

text \<open>C5 as the specification states it fails on the array of a \<open>div\<close> that holds the
  button A and the button B: B is the second button-tagged node of the tree in traversal
  order and is rendered with index 1, not 2; A is inside a node that is returned as it is
  and gets no index.\<close>

theorem nested_button_gets_no_index:
  "tagged_buttons
     (VArray [VNode (JSXNode (Elem ''div'') [] [VNode (JSXNode (Comp Button) [] [VStr ''A''])]),
              VNode (JSXNode (Comp Button) [] [VStr ''B''])]) =
     [VNode (JSXNode (Comp Button) [] [VStr ''A'']),
      VNode (JSXNode (Comp Button) [] [VStr ''B''])] \<and>
   parseIntents no_custom
     (VArray [VNode (JSXNode (Elem ''div'') [] [VNode (JSXNode (Comp Button) [] [VStr ''A''])]),
              VNode (JSXNode (Comp Button) [] [VStr ''B''])]) =
     Inr (VArray
       [VNode (JSXNode (Elem ''div'') [] [VNode (JSXNode (Comp Button) [] [VStr ''A''])]),
        Button_fn [(''children'', VArray [VStr ''B'']), (''index'', VNum 1)]]) \<and>
   Button_fn [(''children'', VArray [VStr ''B'']), (''index'', VNum 1)] \<noteq>
   Button_fn [(''children'', VArray [VStr ''B'']), (''index'', VNum 2)]"
  by (simp add: parseIntents_def parseIntent_def truthy_def button_tagged_def
        Button_fn_def obj_get_def nullish_def show_nat_1 show_nat_2)

text \<open>C4: encoding two \<open>Button\<close> nodes, given as an array or as the children of one
  container node, yields two \<open>meta\<close> elements, and decoding these yields the buttons with
  index 1 and index 2, both of type \<open>post\<close>; each title is the text the renderer gives the
  node's children.\<close>

theorem encode_decode_two_buttons:
  "parseIntents env
     (VArray [VNode (JSXNode (Comp Button) ps1 cs1), VNode (JSXNode (Comp Button) ps2 cs2)]) =
     Inr (VArray
       [Button_fn (map_set ''index'' (VNum 1) (map_set ''children'' (VArray cs1) ps1)),
        Button_fn (map_set ''index'' (VNum 2) (map_set ''children'' (VArray cs2) ps2))]) \<and>
   parseIntents env
     (VNode (JSXNode t ps [VNode (JSXNode (Comp Button) ps1 cs1), VNode (JSXNode (Comp Button) ps2 cs2)])) =
     Inr (VNode (JSXNode t ps
       [Button_fn (map_set ''index'' (VNum 1) (map_set ''children'' (VArray cs1) ps1)),
        Button_fn (map_set ''index'' (VNum 2) (map_set ''children'' (VArray cs2) ps2))])) \<and>
   buttons (htmlToFrame (metaTags_of render
       [Button_fn (map_set ''index'' (VNum 1) (map_set ''children'' (VArray cs1) ps1)),
        Button_fn (map_set ''index'' (VNum 2) (map_set ''children'' (VArray cs2) ps2))])) =
     [\<lparr>index = 1, title = TStr (render (VArray cs1)), type = ''post''\<rparr>,
      \<lparr>index = 2, title = TStr (render (VArray cs2)), type = ''post''\<rparr>]"
proof -
  have g: "obj_get (map_set ''index'' v (map_set ''children'' w ps)) ''index'' = v"
          "obj_get (map_set ''index'' v (map_set ''children'' w ps)) ''children'' = w" for v w ps
    by (simp_all add: obj_get_def map_of_map_set nullish_def)
  have btn: "Button_fn (map_set ''index'' (VNum n) (map_set ''children'' w qs)) =
      VNode (JSXNode (Elem ''meta'')
           [(''property'', VStr (''fc:frame:button:'' @ show_nat n)),
            (''content'', w),
            (''data-value'', obj_get (map_set ''index'' (VNum n) (map_set ''children'' w qs)) ''value'')] [])" for n w qs
    by (simp add: Button_fn_def g Let_def)
  have enc1: "parseIntents env
     (VArray [VNode (JSXNode (Comp Button) ps1 cs1), VNode (JSXNode (Comp Button) ps2 cs2)]) =
     Inr (VArray
       [Button_fn (map_set ''index'' (VNum 1) (map_set ''children'' (VArray cs1) ps1)),
        Button_fn (map_set ''index'' (VNum 2) (map_set ''children'' (VArray cs2) ps2))])"
    by (simp add: parseIntents_def parseIntent_def truthy_def numeral_2_eq_2)
  have enc2: "parseIntents env
     (VNode (JSXNode t ps [VNode (JSXNode (Comp Button) ps1 cs1), VNode (JSXNode (Comp Button) ps2 cs2)])) =
     Inr (VNode (JSXNode t ps
       [Button_fn (map_set ''index'' (VNum 1) (map_set ''children'' (VArray cs1) ps1)),
        Button_fn (map_set ''index'' (VNum 2) (map_set ''children'' (VArray cs2) ps2))]))"
    by (simp add: parseIntents_def parseIntent_def truthy_def typeof_object_def numeral_2_eq_2)
  have tags: "metaTags_of render
       [Button_fn (map_set ''index'' (VNum 1) (map_set ''children'' (VArray cs1) ps1)),
        Button_fn (map_set ''index'' (VNum 2) (map_set ''children'' (VArray cs2) ps2))] =
     [\<lparr>property_attr = Some ''fc:frame:button:1'', content_attr = Some (render (VArray cs1)),
        outerHTML = render (Button_fn (map_set ''index'' (VNum 1) (map_set ''children'' (VArray cs1) ps1)))\<rparr>,
      \<lparr>property_attr = Some ''fc:frame:button:2'', content_attr = Some (render (VArray cs2)),
        outerHTML = render (Button_fn (map_set ''index'' (VNum 2) (map_set ''children'' (VArray cs2) ps2)))\<rparr>]"
    by (simp add: metaTags_of_def to_metaTag_def btn show_nat_1 show_nat_2
          attr_string_def obj_get_def nullish_def)
  have dec: "buttons (htmlToFrame
     [\<lparr>property_attr = Some ''fc:frame:button:1'', content_attr = Some c1, outerHTML = h1\<rparr>,
      \<lparr>property_attr = Some ''fc:frame:button:2'', content_attr = Some c2, outerHTML = h2\<rparr>]) =
     [\<lparr>index = 1, title = TStr c1, type = ''post''\<rparr>,
      \<lparr>index = 2, title = TStr c2, type = ''post''\<rparr>]" for c1 c2 h1 h2
    by (simp add: htmlToFrame_def scan_tags_def scan_tag_def scan_init_def nullish_def
          validPropertyNames_def match_here_def match_groups_def parseInt10_def digit_val_def
          make_buttons_def map_get_def Let_def)
  show ?thesis
    by (simp only: enc1 enc2 tags dec)
qed

text \<open>C9, as the code behaves: of the nodes that \<open>parseIntents\<close> hands to
  \<open>parseIntent\<close> (the elements of a top-level array, the children of a single root node
  whose first child is an object, or else the single root node), a node whose tag is not a
  function is returned as it is, and a node whose tag is a function that carries neither
  capability tag is replaced by the result of calling the function with an empty
  properties object, so its properties and children are not forwarded. A root node that is
  treated as a container is not handed over, whatever its tag: it keeps its tag and
  properties, and its children are replaced by their results.\<close>

theorem untagged_node_result:
  assumes "parseIntents env intents = Inr out"
  shows
    "(\<forall>i t ps cs.
        i < length (visited intents) \<longrightarrow> visited intents ! i = VNode (JSXNode t ps cs) \<longrightarrow>
          (\<forall>s. t = Elem s \<longrightarrow> produced intents out ! i = VNode (JSXNode t ps cs)) \<and>
          (\<forall>f. t = Comp f \<longrightarrow> fn_type f \<noteq> Some ''button'' \<longrightarrow>
                 fn_type f \<noteq> Some ''text-input'' \<longrightarrow>
                 produced intents out ! i = call env f [])) \<and>
     (\<forall>t ps cs.
        intents = VNode (JSXNode t ps cs) \<longrightarrow> is_container (JSXNode t ps cs) \<longrightarrow>
          visited intents = cs \<and> out = VNode (JSXNode t ps (produced intents out)) \<and>
          length (produced intents out) = length cs)"
proof -
  from parseIntents_visited [OF assms] obtain c where
    m: "parseIntent_map env (visited intents) 1 = Inr (produced intents out, c)" ..
  note spec = parseIntent_map_spec [OF m]
  have a: "(\<forall>s. t = Elem s \<longrightarrow> produced intents out ! i = VNode (JSXNode t ps cs)) \<and>
          (\<forall>f. t = Comp f \<longrightarrow> fn_type f \<noteq> Some ''button'' \<longrightarrow>
                 fn_type f \<noteq> Some ''text-input'' \<longrightarrow>
                 produced intents out ! i = call env f [])"
    if i: "i < length (visited intents)"
      and n: "visited intents ! i = VNode (JSXNode t ps cs)" for i t ps cs
  proof -
    from spec i have
      "parseIntent env (visited intents ! i)
          (1 + length (filter button_tagged (take i (visited intents)))) =
        Inr (produced intents out ! i,
             1 + length (filter button_tagged (take (Suc i) (visited intents))))"
      by blast
    then show ?thesis
      unfolding n by (auto simp: parseIntent_def truthy_def)
  qed
  have b: "visited intents = cs \<and> out = VNode (JSXNode t ps (produced intents out)) \<and>
        length (produced intents out) = length cs"
    if "intents = VNode (JSXNode t ps cs)" "is_container (JSXNode t ps cs)" for t ps cs
    using parseIntents_container [of env t ps cs out] assms that spec by simp
  from a b show ?thesis by blast
qed

theorem untagged_node_result_witness:
  "parseIntents no_custom
     (VArray [VNode (JSXNode (Elem ''meta'') [(''property'', VStr ''og:title'')] []),
              VNode (JSXNode (Comp Spacer) [(''size'', VStr ''4'')] [])]) =
   Inr (VArray
     [VNode (JSXNode (Elem ''meta'') [(''property'', VStr ''og:title'')] []),
      Spacer_fn []]) \<and>
   fn_type Spacer \<noteq> Some ''button'' \<and> fn_type Spacer \<noteq> Some ''text-input'' \<and>
   is_container
     (JSXNode (Comp Spacer) [(''size'', VStr ''4'')]
        [VNode (JSXNode (Comp Spacer) [] [])]) \<and>
   parseIntents no_custom
     (VNode (JSXNode (Comp Spacer) [(''size'', VStr ''4'')]
        [VNode (JSXNode (Comp Spacer) [] [])])) =
   Inr (VNode (JSXNode (Comp Spacer) [(''size'', VStr ''4'')] [Spacer_fn []]))"
proof -
  let ?I = "VArray [VNode (JSXNode (Elem ''meta'') [(''property'', VStr ''og:title'')] []),
              VNode (JSXNode (Comp Spacer) [(''size'', VStr ''4'')] [])]"
  let ?O = "VArray
     [VNode (JSXNode (Elem ''meta'') [(''property'', VStr ''og:title'')] []),
      Spacer_fn []]"
  let ?D = "JSXNode (Comp Spacer) [(''size'', VStr ''4'')]
        [VNode (JSXNode (Comp Spacer) [] [])]"
  let ?E = "VNode (JSXNode (Comp Spacer) [(''size'', VStr ''4'')] [Spacer_fn []])"
  have a: "parseIntents no_custom ?I = Inr ?O"
    by (simp add: parseIntents_def parseIntent_def truthy_def)
  have v: "visited ?I ! 0 = VNode (JSXNode (Elem ''meta'') [(''property'', VStr ''og:title'')] [])"
     "visited ?I ! 1 = VNode (JSXNode (Comp Spacer) [(''size'', VStr ''4'')] [])"
     "0 < length (visited ?I)" "1 < length (visited ?I)"
    by (simp_all add: visited_def)
  have t: "fn_type Spacer \<noteq> Some ''button''" "fn_type Spacer \<noteq> Some ''text-input''"
    by simp_all
  have d: "is_container ?D"
    by (simp add: is_container_def typeof_object_def)
  have e: "parseIntents no_custom (VNode ?D) = Inr ?E"
    by (simp add: parseIntents_def parseIntent_def truthy_def typeof_object_def)
  from untagged_node_result [OF a] v t have
    "produced ?I ?O ! 0 = VNode (JSXNode (Elem ''meta'') [(''property'', VStr ''og:title'')] [])"
    "produced ?I ?O ! 1 = call no_custom Spacer []"
    by blast+
  moreover from untagged_node_result [OF e] d have
    "?E = VNode (JSXNode (Comp Spacer) [(''size'', VStr ''4'')] (produced (VNode ?D) ?E))"
    by blast
  ultimately show ?thesis
    using a d e t by simp
qed

text \<open>C9 as the specification states it fails on the array that holds one \<open>Spacer\<close> node:
  \<open>Spacer\<close> carries no capability tag, and the encoder returns what \<open>Spacer({})\<close>
  returns, not the node.\<close>

theorem untagged_component_not_passed_through:
  "fn_type Spacer \<noteq> Some ''button'' \<and> fn_type Spacer \<noteq> Some ''text-input'' \<and>
   parseIntents no_custom (VArray [VNode (JSXNode (Comp Spacer) [(''size'', VStr ''4'')] [])]) =
     Inr (VArray
       [VNode (JSXNode (Comp (Custom ''Box'' None))
          [(''__context'', VUndefined), (''grow'', VBool True), (''height'', VUndefined),
           (''width'', VUndefined)] [])]) \<and>
   parseIntents no_custom (VArray [VNode (JSXNode (Comp Spacer) [(''size'', VStr ''4'')] [])]) \<noteq>
     Inr (VArray [VNode (JSXNode (Comp Spacer) [(''size'', VStr ''4'')] [])])"
  by (simp add: parseIntents_def parseIntent_def truthy_def Spacer_fn_def Let_def obj_get_def
        nullish_def)

section \<open>Properties of the context token\<close>

lemma parse_value_Nil: "parse_value [] = None"
  by (simp add: parse_value.simps [of "[]"])

lemma parse_value_Cons:
  "parse_value (t # rest) =
          (case t of
             TkNull \<Rightarrow> Some (JNull, rest)
           | TkTrue \<Rightarrow> Some (JBool True, rest)
           | TkFalse \<Rightarrow> Some (JBool False, rest)
           | TkString s \<Rightarrow> Some (JString s, rest)
           | TkNumber n \<Rightarrow> Some (JNumber n, rest)
           | TkLBracket \<Rightarrow>
               if starts_with TkRBracket rest then Some (JArray [], tl rest)
               else parse_elements [] rest
           | TkLBrace \<Rightarrow>
               if starts_with TkRBrace rest then Some (JObject [], tl rest)
               else parse_members [] rest
           | _ \<Rightarrow> None)"
  by (simp add: parse_value.simps [of "t # rest"])

lemma parse_shorter:
  "parse_value ts = Some (v, rest) \<longrightarrow> length rest < length ts"
  "parse_elements acc ts = Some (v, rest) \<longrightarrow> length rest < length ts"
  "parse_members macc ts = Some (v, rest) \<longrightarrow> length rest < length ts"
proof (induction ts and acc ts and macc ts arbitrary: v rest and v rest and v rest
       rule: parse_value_parse_elements_parse_members.induct)
  case (1 ts)
  show ?case
  proof
    assume pv: "parse_value ts = Some (v, rest)"
    then obtain t ts' where ts: "ts = t # ts'"
      by (cases ts) (simp_all add: parse_value_Nil)
    show "length rest < length ts"
    proof (cases t)
      case TkLBracket
      show ?thesis
      proof (cases "starts_with TkRBracket ts'")
        case True
        with pv ts TkLBracket show ?thesis
          by (auto simp: parse_value_Cons)
      next
        case False
        with pv ts TkLBracket have "parse_elements [] ts' = Some (v, rest)"
          by (simp add: parse_value_Cons)
        with "1.IH"(2) [OF ts TkLBracket False] have "length rest < length ts'" by blast
        with ts show ?thesis by simp
      qed
    next
      case TkLBrace
      show ?thesis
      proof (cases "starts_with TkRBrace ts'")
        case True
        with pv ts TkLBrace show ?thesis
          by (auto simp: parse_value_Cons)
      next
        case False
        with pv ts TkLBrace have "parse_members [] ts' = Some (v, rest)"
          by (simp add: parse_value_Cons)
        with "1.IH"(1) [OF ts TkLBrace False] have "length rest < length ts'" by blast
        with ts show ?thesis by simp
      qed
    qed (use pv ts in \<open>simp_all add: parse_value_Cons\<close>)
  qed
next
  case (2 acc ts)
  show ?case
  proof
    assume pe: "parse_elements acc ts = Some (v, rest)"
    then obtain v1 r1 where pv: "parse_value ts = Some (v1, r1)" and l: "length r1 < length ts"
      by (auto simp: parse_elements.simps [of acc ts] split: option.splits if_splits)
    show "length rest < length ts"
    proof (cases "starts_with TkComma r1")
      case True
      with pe pv l have "parse_elements (acc @ [v1]) (tl r1) = Some (v, rest)"
        by (simp add: parse_elements.simps [of acc ts])
      with "2.IH"(2) [OF pv refl l True] have "length rest < length (tl r1)" by blast
      with l show ?thesis by simp
    next
      case False
      with pe pv l show ?thesis
        by (auto simp: parse_elements.simps [of acc ts] split: if_splits)
    qed
  qed
next
  case (3 acc ts)
  show ?case
  proof
    assume pm: "parse_members acc ts = Some (v, rest)"
    then obtain k ts1 where ts: "ts = TkString k # ts1" and c: "starts_with TkColon ts1"
      by (auto simp: parse_members.simps [of acc ts] split: list.splits token.splits if_splits)
    from pm ts c obtain v1 r1 where pv: "parse_value (tl ts1) = Some (v1, r1)"
        and l: "length r1 < length (tl ts1)"
      by (auto simp: parse_members.simps [of acc "TkString k # ts1"] split: option.splits if_splits)
    show "length rest < length ts"
    proof (cases "starts_with TkComma r1")
      case True
      with pm ts c pv l have "parse_members (map_set k v1 acc) (tl r1) = Some (v, rest)"
        by (simp add: parse_members.simps [of acc "TkString k # ts1"])
      with "3.IH"(2) [OF ts refl c pv refl l True] have "length rest < length (tl r1)" by blast
      with l ts show ?thesis by simp
    next
      case False
      with pm ts c pv l show ?thesis
        by (auto simp: parse_members.simps [of acc "TkString k # ts1"] split: if_splits)
    qed
  qed
qed

lemma decode_bad_escape:
  "cu CHR ''%'' \<notin> set pre \<Longrightarrow> ParseHexOctet rest = None \<Longrightarrow>
     decodeURIComponent (pre @ cu CHR ''%'' # rest) = Inl URIError"
  by (induction pre) auto

lemma deserialize_absent: "deserializeJson None = Inr (JObject [])"
  by code_simp

lemma JSON_parse_error: "JSON_parse s = Inl e \<Longrightarrow> e = SyntaxError"
  by (auto simp: JSON_parse_def split: option.splits prod.splits list.splits)

text \<open>C1, as the code behaves: \<open>deserializeJson\<close> returns the empty object when the
  parameter is absent. A malformed parameter is not swallowed: a \<open>%\<close> that is not followed
  by two hexadecimal digits gives the URIError of \<open>decodeURIComponent\<close>, as does every
  other failure of the decoding, and a decoded text that is not JSON gives the SyntaxError
  of \<open>JSON.parse\<close>. Otherwise the result is the parsed value.\<close>

theorem deserializeJson_absent_or_throws:
  "deserializeJson None = Inr (JObject []) \<and>
   (cu CHR ''%'' \<notin> set pre \<longrightarrow> ParseHexOctet rest = None \<longrightarrow>
      deserializeJson (Some (pre @ cu CHR ''%'' # rest)) = Inl URIError) \<and>
   (decodeURIComponent d = Inl e \<longrightarrow> deserializeJson (Some d) = Inl e) \<and>
   (decodeURIComponent d = Inr s \<longrightarrow> deserializeJson (Some d) = JSON_parse s) \<and>
   (decodeURIComponent d = Inr s \<longrightarrow> JSON_parse s = Inl e' \<longrightarrow>
      deserializeJson (Some d) = Inl SyntaxError)"
proof (intro conjI impI)
  show "deserializeJson None = Inr (JObject [])"
    by (rule deserialize_absent)
next
  assume "cu CHR ''%'' \<notin> set pre" "ParseHexOctet rest = None"
  from decode_bad_escape [OF this]
  show "deserializeJson (Some (pre @ cu CHR ''%'' # rest)) = Inl URIError"
    by (simp add: deserializeJson_def nullish_def)
next
  assume "decodeURIComponent d = Inl e"
  then show "deserializeJson (Some d) = Inl e"
    by (simp add: deserializeJson_def nullish_def)
next
  assume "decodeURIComponent d = Inr s"
  then show "deserializeJson (Some d) = JSON_parse s"
    by (simp add: deserializeJson_def nullish_def)
next
  assume "decodeURIComponent d = Inr s" "JSON_parse s = Inl e'"
  with JSON_parse_error [of s e'] show "deserializeJson (Some d) = Inl SyntaxError"
    by (simp add: deserializeJson_def nullish_def)
qed

theorem deserializeJson_absent_or_throws_witness:
  "cu CHR ''%'' \<notin> set (ustring ''a'') \<and> ParseHexOctet (ustring ''4'') = None \<and>
   deserializeJson (Some (ustring ''a%4'')) = Inl URIError \<and>
   decodeURIComponent (ustring ''%7B'') = Inr (ustring ''{'') \<and>
   JSON_parse (ustring ''{'') = Inl SyntaxError \<and>
   deserializeJson (Some (ustring ''%7B'')) = Inl SyntaxError \<and>
   decodeURIComponent (ustring ''%'') = Inl URIError \<and>
   deserializeJson (Some (ustring ''%'')) = Inl URIError"
proof -
  have a: "cu CHR ''%'' \<notin> set (ustring ''a'')" "ParseHexOctet (ustring ''4'') = None"
    by (simp_all add: ustring_def ParseHexOctet_def)
  have b: "decodeURIComponent (ustring ''%7B'') = Inr (ustring ''{'')"
    by code_simp
  have c: "JSON_parse (ustring ''{'') = Inl SyntaxError"
    by code_simp
  have d: "decodeURIComponent (ustring ''%'') = Inl URIError"
    by code_simp
  have e: "ustring ''a'' @ cu CHR ''%'' # ustring ''4'' = ustring ''a%4''"
    by (simp add: ustring_def)
  from deserializeJson_absent_or_throws [of "ustring ''a''" "ustring ''4''" "ustring ''%7B''" SyntaxError "ustring ''{''" SyntaxError]
       deserializeJson_absent_or_throws [of "[]" "[]" "ustring ''%''" URIError "[]" SyntaxError]
       a b c d e
  show ?thesis by simp
qed

text \<open>C1 as the specification states it fails on the parameter \<open>%\<close> (bad
  percent-encoding) and on the parameter \<open>{\<close> (invalid JSON): both calls throw, neither
  returns the empty object.\<close>

theorem deserializeJson_throws_on_malformed:
  "deserializeJson (Some (ustring ''%'')) = Inl URIError \<and>
   deserializeJson (Some (ustring ''{'')) = Inl SyntaxError \<and>
   \<not> (\<exists>v. deserializeJson (Some (ustring ''%'')) = Inr v) \<and>
   deserializeJson (Some (ustring ''{'')) \<noteq> Inr (JObject [])"
proof -
  have a: "deserializeJson (Some (ustring ''%'')) = Inl URIError"
    by code_simp
  have b: "deserializeJson (Some (ustring ''{'')) = Inl SyntaxError"
    by code_simp
  show ?thesis by (simp add: a b)
qed

end
